theory Spec2Isabelle
  imports Complex_Main "HOL-Library.Sublist"
begin

section \<open>Python values and exceptions\<close>

text \<open>
  The service of \<^verbatim>\<open>Campaign-ER.py\<close> handles decoded JSON only: the request body, the
  records of the table store and the answers of the video platform. A decoded JSON value is a
  Python \<^verbatim>\<open>None\<close>, \<^verbatim>\<open>bool\<close>, \<^verbatim>\<open>int\<close>, \<^verbatim>\<open>str\<close>, \<^verbatim>\<open>list\<close> or \<^verbatim>\<open>dict\<close>.
  Numbers with a fractional part are left out of the value type (they would be binary
  floating point); a \<^verbatim>\<open>dict\<close> is an association list whose first binding of a key counts.
\<close>

datatype json =
    JNull
  | JBool bool
  | JInt int
  | JStr string
  | JArr "json list"
  | JObj "(string \<times> json) list"

text \<open>
  The exceptions that the code can meet. All of them derive from Python's
  \<^verbatim>\<open>Exception\<close>, so every \<^verbatim>\<open>except Exception\<close> of the source catches each of them.
  \<open>HTTPError\<close> carries the status that \<^verbatim>\<open>raise_for_status\<close> rejected;
  \<open>RequestException\<close> stands for what the HTTP client raises itself (no connection, a body
  that is not JSON); \<open>LibraryError\<close> for what a library function outside this repository
  raises on an input this theory does not decide.
\<close>

datatype exn =
    KeyError
  | TypeError
  | AttributeError
  | IndexError
  | ValueError
  | ZeroDivisionError
  | OverflowError
  | ISO8601Error
  | HTTPError nat
  | RequestException string
  | LibraryError string

text \<open>Python truthiness, as used by \<^verbatim>\<open>if not x\<close>.\<close>

fun truthy :: "json \<Rightarrow> bool" where
  "truthy JNull = False"
| "truthy (JBool b) = b"
| "truthy (JInt i) = (i \<noteq> 0)"
| "truthy (JStr s) = (s \<noteq> [])"
| "truthy (JArr xs) = (xs \<noteq> [])"
| "truthy (JObj kvs) = (kvs \<noteq> [])"

text \<open>\<^verbatim>\<open>d.get(key, default)\<close>: only a \<^verbatim>\<open>dict\<close> has the method.\<close>

fun py_get :: "json \<Rightarrow> string \<Rightarrow> json \<Rightarrow> exn + json" where
  "py_get (JObj kvs) k dflt = Inr (case map_of kvs k of Some v \<Rightarrow> v | None \<Rightarrow> dflt)"
| "py_get _ k dflt = Inl AttributeError"

text \<open>\<^verbatim>\<open>d[key]\<close> with a string key: a missing key raises \<^verbatim>\<open>KeyError\<close>, a value that is
  no \<^verbatim>\<open>dict\<close> raises \<^verbatim>\<open>TypeError\<close> (a list or string wants an integer index, the other
  values are not subscriptable).\<close>

fun py_getitem :: "json \<Rightarrow> string \<Rightarrow> exn + json" where
  "py_getitem (JObj kvs) k = (case map_of kvs k of Some v \<Rightarrow> Inr v | None \<Rightarrow> Inl KeyError)"
| "py_getitem _ k = Inl TypeError"

text \<open>\<^verbatim>\<open>x[0]\<close>, reached in the source only for a truthy \<open>x\<close>.\<close>

fun py_getitem0 :: "json \<Rightarrow> exn + json" where
  "py_getitem0 (JArr (x # xs)) = Inr x"
| "py_getitem0 (JStr (c # cs)) = Inr (JStr [c])"
| "py_getitem0 (JObj kvs) = Inl KeyError"
| "py_getitem0 (JArr []) = Inl IndexError"
| "py_getitem0 (JStr []) = Inl IndexError"
| "py_getitem0 _ = Inl TypeError"

text \<open>Iteration (\<^verbatim>\<open>for x in v\<close>, \<^verbatim>\<open>list.extend(v)\<close>): a list gives its elements, a string
  its characters, a \<^verbatim>\<open>dict\<close> its keys; the other values are not iterable.\<close>

fun py_iter :: "json \<Rightarrow> exn + json list" where
  "py_iter (JArr xs) = Inr xs"
| "py_iter (JStr s) = Inr (map (\<lambda>c. JStr [c]) s)"
| "py_iter (JObj kvs) = Inr (map (\<lambda>kv. JStr (fst kv)) kvs)"
| "py_iter _ = Inl TypeError"

text \<open>\<^verbatim>\<open>key in v\<close> for a string key: membership in a \<^verbatim>\<open>dict\<close>'s keys, equality with
  an element of a list, substring of a string.\<close>

fun py_contains :: "json \<Rightarrow> string \<Rightarrow> exn + bool" where
  "py_contains (JObj kvs) k = Inr (k \<in> set (map fst kvs))"
| "py_contains (JArr xs) k = Inr (JStr k \<in> set xs)"
| "py_contains (JStr s) k = Inr (sublist k s)"
| "py_contains _ k = Inl TypeError"

text \<open>\<^verbatim>\<open>",".join(batch)\<close>: every element has to be a string.\<close>

fun py_join :: "string \<Rightarrow> json list \<Rightarrow> exn + string" where
  "py_join sep [] = Inr []"
| "py_join sep (JStr s # xs) =
     (case py_join sep xs of
        Inl e \<Rightarrow> Inl e
      | Inr r \<Rightarrow> Inr (if xs = [] then s else s @ sep @ r))"
| "py_join sep (_ # xs) = Inl TypeError"

section \<open>Library functions outside the repository\<close>

text \<open>
  The source calls \<^verbatim>\<open>int\<close>, \<^verbatim>\<open>isodate.parse_duration\<close>, \<^verbatim>\<open>dateutil.parser.parse\<close> and
  \<^verbatim>\<open>str\<close> of an exception. None of them is code of this repository. Each is modelled
  by what it certainly does on a plain fragment of its inputs, written out below, and by an
  arbitrary function of the record \<open>pylib\<close> on every other input, so that no theorem
  depends on a guess about the rest.
\<close>

datatype py_duration = Timedelta (total_seconds: rat)

text \<open>A \<^verbatim>\<open>datetime\<close> with or without time zone, as an instant in microseconds.\<close>

datatype py_datetime = Aware int | Naive int

record pylib =
  lib_int :: "string \<Rightarrow> exn + int"
  lib_parse_duration :: "string \<Rightarrow> exn + py_duration"
  lib_parse_date :: "json \<Rightarrow> exn + py_datetime"
  lib_str :: "exn \<Rightarrow> string"

definition is_digit :: "char \<Rightarrow> bool" where
  "is_digit c = (c \<in> set ''0123456789'')"

definition digit_val :: "char \<Rightarrow> nat" where
  "digit_val c = of_char c - 48"

definition nat_of_digits :: "string \<Rightarrow> nat" where
  "nat_of_digits ds = foldl (\<lambda>a c. 10 * a + digit_val c) 0 ds"

definition is_ascii :: "char \<Rightarrow> bool" where
  "is_ascii c = ((of_char c :: nat) < 128)"

text \<open>
  \<^verbatim>\<open>int(v)\<close>. An \<^verbatim>\<open>int\<close> is returned as it is and a \<^verbatim>\<open>bool\<close> as 0 or 1;
  \<^verbatim>\<open>None\<close>, a list and a \<^verbatim>\<open>dict\<close> raise \<^verbatim>\<open>TypeError\<close>. A string of an optional
  sign and one to 640 ASCII digits is read in base ten; an ASCII string without any digit
  raises \<^verbatim>\<open>ValueError\<close>; every other string (blanks, underscores, more digits than
  the interpreter's limit can be set to) is left to \<open>lib_int\<close>.
\<close>

definition plain_digits :: "string \<Rightarrow> bool" where
  "plain_digits ds = (ds \<noteq> [] \<and> length ds \<le> 640 \<and> list_all is_digit ds)"

fun py_int_str :: "pylib \<Rightarrow> string \<Rightarrow> exn + int" where
  "py_int_str L s =
     (if plain_digits s then Inr (int (nat_of_digits s))
      else if s \<noteq> [] \<and> hd s = CHR ''-'' \<and> plain_digits (tl s)
        then Inr (- int (nat_of_digits (tl s)))
      else if s \<noteq> [] \<and> hd s = CHR ''+'' \<and> plain_digits (tl s)
        then Inr (int (nat_of_digits (tl s)))
      else if list_all is_ascii s \<and> \<not> list_ex is_digit s then Inl ValueError
      else lib_int L s)"

fun py_int :: "pylib \<Rightarrow> json \<Rightarrow> exn + int" where
  "py_int L (JInt i) = Inr i"
| "py_int L (JBool b) = Inr (if b then 1 else 0)"
| "py_int L (JStr s) = py_int_str L s"
| "py_int L _ = Inl TypeError"

text \<open>
  \<^verbatim>\<open>isodate.parse_duration\<close>. A value that is no string raises \<^verbatim>\<open>TypeError\<close>. The
  fragment decided here is \<^verbatim>\<open>P[nD][T[nH][nM][nS]]\<close> with at least one component, each
  \<open>n\<close> of one to six ASCII digits: the library returns the \<^verbatim>\<open>timedelta\<close> of that many
  days, hours, minutes and seconds. A string that is empty or starts with none of
  \<^verbatim>\<open>P\<close>, \<^verbatim>\<open>+\<close>, \<^verbatim>\<open>-\<close> matches neither of the library's formats and raises
  \<^verbatim>\<open>ISO8601Error\<close>. Everything else (years, months, weeks, fractions, signs, the
  alternative format) is left to \<open>lib_parse_duration\<close>.
\<close>

definition component :: "char \<Rightarrow> string \<Rightarrow> (nat \<times> string) option" where
  "component unit s =
     (let ds = takeWhile is_digit s; rest = dropWhile is_digit s
      in if ds \<noteq> [] \<and> length ds \<le> 6 \<and> rest \<noteq> [] \<and> hd rest = unit
         then Some (nat_of_digits ds, tl rest) else None)"

definition opt_component :: "char \<Rightarrow> string \<Rightarrow> nat \<times> string \<times> bool" where
  "opt_component unit s =
     (case component unit s of Some (n, r) \<Rightarrow> (n, r, True) | None \<Rightarrow> (0, s, False))"

definition time_part :: "nat \<Rightarrow> bool \<Rightarrow> string \<Rightarrow> nat option" where
  "time_part d has_d s =
     (case opt_component CHR ''H'' s of (h, r1, has_h) \<Rightarrow>
      case opt_component CHR ''M'' r1 of (m, r2, has_m) \<Rightarrow>
      case opt_component CHR ''S'' r2 of (sec, r3, has_s) \<Rightarrow>
        if r3 = [] \<and> (has_d \<or> has_h \<or> has_m \<or> has_s)
        then Some (d * 86400 + h * 3600 + m * 60 + sec) else None)"

definition simple_duration :: "string \<Rightarrow> nat option" where
  "simple_duration s =
     (if s \<noteq> [] \<and> hd s = CHR ''P'' then
        (case opt_component CHR ''D'' (tl s) of (d, r, has_d) \<Rightarrow>
           if r = [] then (if has_d then Some (d * 86400) else None)
           else if hd r = CHR ''T'' then time_part d has_d (tl r)
           else None)
      else None)"

fun parse_duration :: "pylib \<Rightarrow> json \<Rightarrow> exn + py_duration" where
  "parse_duration L (JStr s) =
     (case simple_duration s of
        Some n \<Rightarrow> Inr (Timedelta (of_nat n))
      | None \<Rightarrow>
          if s = [] \<or> hd s \<notin> set ''P+-'' then Inl ISO8601Error
          else lib_parse_duration L s)"
| "parse_duration L _ = Inl TypeError"

section \<open>The duration classifier\<close>

text \<open>\<^verbatim>\<open>is_longform\<close>, lines 99 to 104: the body of the \<^verbatim>\<open>try\<close>, then the function
  with its \<^verbatim>\<open>except Exception: return False\<close>.\<close>

definition is_longform_try :: "pylib \<Rightarrow> json \<Rightarrow> exn + bool" where
  "is_longform_try L iso_duration =
     (case parse_duration L iso_duration of
        Inl e \<Rightarrow> Inl e
      | Inr duration \<Rightarrow> Inr (total_seconds duration \<ge> 180))"

definition is_longform :: "pylib \<Rightarrow> json \<Rightarrow> exn + bool" where
  "is_longform L iso_duration =
     (case is_longform_try L iso_duration of
        Inl e \<Rightarrow> Inr False
      | Inr b \<Rightarrow> Inr b)"

section \<open>Averages\<close>

text \<open>
  Lines 178 to 180 compute \<^verbatim>\<open>int(sum(xs) / len(xs))\<close>. Python's \<^verbatim>\<open>/\<close> on two
  integers is the exact quotient rounded once to the nearest binary64 number (ties to even),
  \<^verbatim>\<open>ZeroDivisionError\<close> for a zero divisor and \<^verbatim>\<open>OverflowError\<close> where the rounded
  quotient leaves the binary64 range; \<^verbatim>\<open>int\<close> of the result drops the fractional part.
  A binary64 number is a rational here: an integer of up to 53 bits times a power of two
  that is at least \<open>2\<^sup>-\<^sup>1\<^sup>0\<^sup>7\<^sup>4\<close>.
\<close>

fun ilog2 :: "nat \<Rightarrow> nat" where
  "ilog2 n = (if n < 2 then 0 else Suc (ilog2 (n div 2)))"

declare ilog2.simps [simp del]

text \<open>The exponent \<open>e\<close> with \<open>2\<^sup>e \<le> q < 2\<^sup>e\<^sup>+\<^sup>1\<close>, for a positive \<open>q\<close>.\<close>

definition binary_exponent :: "rat \<Rightarrow> int" where
  "binary_exponent q =
     (if 1 \<le> q then int (ilog2 (nat \<lfloor>q\<rfloor>))
      else - int (Suc (ilog2 (nat \<lceil>1 / q\<rceil> - 1))))"

definition round_half_even :: "rat \<Rightarrow> int" where
  "round_half_even x =
     (let f = \<lfloor>x\<rfloor>; d = x - of_int f
      in if d < 1 / 2 then f
         else if 1 / 2 < d then f + 1
         else if even f then f else f + 1)"

definition pow2 :: "int \<Rightarrow> rat" where
  "pow2 k = (if 0 \<le> k then 2 ^ nat k else 1 / 2 ^ nat (- k))"

definition round_to_double :: "rat \<Rightarrow> rat" where
  "round_to_double q =
     (if q = 0 then 0
      else let a = \<bar>q\<bar>;
               e = max (binary_exponent a) (- 1022);
               ulp = pow2 (e - 52);
               m = round_half_even (a / ulp)
           in sgn q * of_int m * ulp)"

definition py_true_div :: "int \<Rightarrow> int \<Rightarrow> exn + rat" where
  "py_true_div a b =
     (if b = 0 then Inl ZeroDivisionError
      else let r = round_to_double (of_int a / of_int b)
           in if 2 ^ 1024 \<le> \<bar>r\<bar> then Inl OverflowError else Inr r)"

definition int_of_float :: "rat \<Rightarrow> int" where
  "int_of_float r = (if 0 \<le> r then \<lfloor>r\<rfloor> else \<lceil>r\<rceil>)"

definition average :: "int list \<Rightarrow> exn + int" where
  "average xs =
     (case py_true_div (sum_list xs) (int (length xs)) of
        Inl e \<Rightarrow> Inl e
      | Inr r \<Rightarrow> Inr (int_of_float r))"

section \<open>Collecting the metrics of the long-form videos\<close>

text \<open>
  Lines 162 to 172. The three lists are mutated in place, so an exception in the middle of
  the \<^verbatim>\<open>try\<close> body leaves the appends made before it: the body returns the lists next
  to its outcome. \<open>collect_video\<close> is the body with its
  \<^verbatim>\<open>except Exception: continue\<close>.
\<close>

record metrics =
  longform_views :: "int list"
  longform_likes :: "int list"
  longform_comments :: "int list"

definition and_then :: "exn + 'a \<Rightarrow> ('a \<Rightarrow> exn + 'b) \<Rightarrow> exn + 'b" where
  "and_then r f = (case r of Inl e \<Rightarrow> Inl e | Inr x \<Rightarrow> f x)"

definition count_of :: "pylib \<Rightarrow> json \<Rightarrow> string \<Rightarrow> exn + int" where
  "count_of L stats k = and_then (py_get stats k (JInt 0)) (py_int L)"

definition video_duration :: "json \<Rightarrow> exn + json" where
  "video_duration video =
     and_then (py_getitem video ''contentDetails'') (\<lambda>cd. py_getitem cd ''duration'')"

definition collect_video_try :: "pylib \<Rightarrow> json \<Rightarrow> metrics \<Rightarrow> (exn + unit) \<times> metrics" where
  "collect_video_try L video m =
     (case and_then (video_duration video) (is_longform L) of
        Inl e \<Rightarrow> (Inl e, m)
      | Inr False \<Rightarrow> (Inr (), m)
      | Inr True \<Rightarrow>
          (case py_get video ''statistics'' (JObj []) of
             Inl e \<Rightarrow> (Inl e, m)
           | Inr stats \<Rightarrow>
               (case count_of L stats ''viewCount'' of
                  Inl e \<Rightarrow> (Inl e, m)
                | Inr v \<Rightarrow>
                    let m1 = m\<lparr>longform_views := longform_views m @ [v]\<rparr> in
                    (case count_of L stats ''likeCount'' of
                       Inl e \<Rightarrow> (Inl e, m1)
                     | Inr l \<Rightarrow>
                         let m2 = m1\<lparr>longform_likes := longform_likes m1 @ [l]\<rparr> in
                         (case count_of L stats ''commentCount'' of
                            Inl e \<Rightarrow> (Inl e, m2)
                          | Inr c \<Rightarrow>
                              (Inr (), m2\<lparr>longform_comments :=
                                              longform_comments m2 @ [c]\<rparr>))))))"

definition collect_video :: "pylib \<Rightarrow> json \<Rightarrow> metrics \<Rightarrow> (exn + unit) \<times> metrics" where
  "collect_video L video m =
     (case collect_video_try L video m of
        (Inl e, m') \<Rightarrow> (Inr (), m')
      | (Inr u, m') \<Rightarrow> (Inr (), m'))"

fun collect_metrics :: "pylib \<Rightarrow> json list \<Rightarrow> metrics \<Rightarrow> (exn + unit) \<times> metrics" where
  "collect_metrics L [] m = (Inr (), m)"
| "collect_metrics L (video # videos) m =
     (case collect_video L video m of
        (Inl e, m') \<Rightarrow> (Inl e, m')
      | (Inr u, m') \<Rightarrow> collect_metrics L videos m')"

definition no_metrics :: metrics where
  "no_metrics = \<lparr>longform_views = [], longform_likes = [], longform_comments = []\<rparr>"

section \<open>The two remote services\<close>

text \<open>
  Every call of \<^verbatim>\<open>requests.get\<close> and \<^verbatim>\<open>requests.patch\<close> is a request to the world
  outside, which answers and changes: \<open>send\<close> takes the state of the world and returns the
  new one. A request is identified by its endpoint and the values the source puts into the
  URL, the parameters or the payload; the API keys are constant and left out. The answer is
  a response with a status and the outcome of \<^verbatim>\<open>resp.json()\<close>, or the exception that
  the HTTP client raised. \<open>utcnow\<close> reads the clock, in microseconds.
\<close>

datatype request =
    AirtableGet json json
  | AirtablePatch json json json
  | ChannelsGet json
  | PlaylistItemsGet json "json option"
  | VideosGet string

record response =
  status_code :: nat
  json_body :: "exn + json"

record 'w env =
  send :: "request \<Rightarrow> 'w \<Rightarrow> (exn + response) \<times> 'w"
  utcnow :: "'w \<Rightarrow> int"

definition raise_for_status :: "response \<Rightarrow> exn + unit" where
  "raise_for_status resp =
     (if 400 \<le> status_code resp \<and> status_code resp < 600
      then Inl (HTTPError (status_code resp)) else Inr ())"

text \<open>The three lines \<^verbatim>\<open>resp = requests.get(...)\<close>, \<^verbatim>\<open>resp.raise_for_status()\<close>,
  \<^verbatim>\<open>resp.json()\<close> that every reading function of the source starts with.\<close>

definition fetch_json :: "'w env \<Rightarrow> request \<Rightarrow> 'w \<Rightarrow> (exn + json) \<times> 'w" where
  "fetch_json E req w =
     (case send E req w of
        (Inl e, w1) \<Rightarrow> (Inl e, w1)
      | (Inr resp, w1) \<Rightarrow>
          (case raise_for_status resp of
             Inl e \<Rightarrow> (Inl e, w1)
           | Inr u \<Rightarrow> (json_body resp, w1)))"

definition get_airtable_record :: "'w env \<Rightarrow> json \<Rightarrow> json \<Rightarrow> 'w \<Rightarrow> (exn + json) \<times> 'w" where
  "get_airtable_record E table_name record_id w =
     (case fetch_json E (AirtableGet table_name record_id) w of
        (Inl e, w1) \<Rightarrow> (Inl e, w1)
      | (Inr j, w1) \<Rightarrow> (py_get j ''fields'' JNull, w1))"

definition update_airtable_record ::
  "'w env \<Rightarrow> json \<Rightarrow> json \<Rightarrow> json \<Rightarrow> 'w \<Rightarrow> (exn + unit) \<times> 'w" where
  "update_airtable_record E table_name record_id new_fields w =
     (case send E (AirtablePatch table_name record_id (JObj [(''fields'', new_fields)])) w of
        (Inl e, w1) \<Rightarrow> (Inl e, w1)
      | (Inr resp, w1) \<Rightarrow> (raise_for_status resp, w1))"

definition get_uploads_playlist_id :: "'w env \<Rightarrow> json \<Rightarrow> 'w \<Rightarrow> (exn + json) \<times> 'w" where
  "get_uploads_playlist_id E channel_id w =
     (case fetch_json E (ChannelsGet channel_id) w of
        (Inl e, w1) \<Rightarrow> (Inl e, w1)
      | (Inr j, w1) \<Rightarrow>
          (case py_get j ''items'' (JArr []) of
             Inl e \<Rightarrow> (Inl e, w1)
           | Inr items \<Rightarrow>
               if \<not> truthy items then (Inr JNull, w1)
               else (and_then (py_getitem0 items) (\<lambda>i.
                     and_then (py_getitem i ''contentDetails'') (\<lambda>c.
                     and_then (py_getitem c ''relatedPlaylists'') (\<lambda>r.
                     py_getitem r ''uploads''))), w1)))"

section \<open>Recent uploads of a playlist\<close>

text \<open>
  \<^verbatim>\<open>get_recent_video_ids\<close>, lines 50 to 81. \<open>datetime_ge\<close> is
  \<^verbatim>\<open>published_at >= cutoff_date\<close> against the time-zone aware cutoff: Python refuses to
  compare a naive \<^verbatim>\<open>datetime\<close> with it. \<open>scan_item\<close> is the body of the inner
  \<^verbatim>\<open>for\<close> over the pair \<^verbatim>\<open>(video_ids, found_recent)\<close>, \<open>scan_page\<close> is one round of
  the \<^verbatim>\<open>while True\<close> after the request: it returns the identifiers so far and the page
  token to go on with, or no token where the source leaves the loop by \<^verbatim>\<open>break\<close>.
\<close>

fun datetime_ge :: "py_datetime \<Rightarrow> int \<Rightarrow> exn + bool" where
  "datetime_ge (Aware t) cutoff_date = Inr (cutoff_date \<le> t)"
| "datetime_ge (Naive t) cutoff_date = Inl TypeError"

definition scan_item :: "pylib \<Rightarrow> int \<Rightarrow> json \<Rightarrow> json list \<times> bool \<Rightarrow> exn + json list \<times> bool" where
  "scan_item L cutoff_date item st =
     and_then (py_getitem item ''contentDetails'') (\<lambda>cd.
     and_then (py_getitem cd ''videoPublishedAt'') (\<lambda>p.
     and_then (lib_parse_date L p) (\<lambda>published_at.
     and_then (datetime_ge published_at cutoff_date) (\<lambda>recent.
       if recent
       then and_then (py_getitem item ''contentDetails'') (\<lambda>cd'.
            and_then (py_getitem cd' ''videoId'') (\<lambda>video_id.
              Inr (fst st @ [video_id], True)))
       else Inr st))))"

fun scan_items :: "pylib \<Rightarrow> int \<Rightarrow> json list \<Rightarrow> json list \<times> bool \<Rightarrow> exn + json list \<times> bool" where
  "scan_items L cutoff_date [] st = Inr st"
| "scan_items L cutoff_date (item # items) st =
     (case scan_item L cutoff_date item st of
        Inl e \<Rightarrow> Inl e
      | Inr st' \<Rightarrow> scan_items L cutoff_date items st')"

definition scan_page :: "pylib \<Rightarrow> int \<Rightarrow> json \<Rightarrow> json list \<Rightarrow> exn + json list \<times> json option" where
  "scan_page L cutoff_date data video_ids =
     and_then (py_get data ''items'' (JArr [])) (\<lambda>items.
     and_then (py_iter items) (\<lambda>its.
     and_then (scan_items L cutoff_date its (video_ids, False)) (\<lambda>st.
       if \<not> snd st then Inr (fst st, None)
       else and_then (py_get data ''nextPageToken'' JNull) (\<lambda>next_page.
              if \<not> truthy next_page then Inr (fst st, None)
              else Inr (fst st, Some next_page)))))"

text \<open>The loop has no bound of its own: it runs for as long as the platform hands out
  pages with a recent item and a token. \<open>None\<close> is a run that never returns.\<close>

partial_function (option) recent_loop ::
  "pylib \<Rightarrow> 'w env \<Rightarrow> json \<Rightarrow> int \<Rightarrow> json list \<Rightarrow> json option \<Rightarrow> 'w
     \<Rightarrow> ((exn + json list) \<times> 'w) option" where
  "recent_loop L E playlist_id cutoff_date video_ids next_page w =
     (case fetch_json E (PlaylistItemsGet playlist_id next_page) w of
        (Inl e, w1) \<Rightarrow> Some (Inl e, w1)
      | (Inr data, w1) \<Rightarrow>
          (case scan_page L cutoff_date data video_ids of
             Inl e \<Rightarrow> Some (Inl e, w1)
           | Inr (ids, None) \<Rightarrow> Some (Inr ids, w1)
           | Inr (ids, Some tok) \<Rightarrow>
               recent_loop L E playlist_id cutoff_date ids (Some tok) w1))"

definition get_recent_video_ids ::
  "pylib \<Rightarrow> 'w env \<Rightarrow> json \<Rightarrow> int \<Rightarrow> 'w \<Rightarrow> ((exn + json list) \<times> 'w) option" where
  "get_recent_video_ids L E playlist_id cutoff_date w =
     recent_loop L E playlist_id cutoff_date [] None w"

text \<open>
  A page as the specification of the listing speaks of it: \<open>page_items\<close> are the publish instant
  and the identifier of every item, for a page all of whose items carry both and a date
  with a time zone; \<open>qualifying\<close> selects the identifiers published at or after the
  cutoff, in the order of the page; \<open>page_token\<close> is the \<^verbatim>\<open>nextPageToken\<close>, \<open>JNull\<close>
  without one. \<open>serves\<close> says that the platform answers the successive requests with the
  given pages, the first request carrying the token \<open>tok\<close> and each later one the token of
  the page before it, and names the state of the world after each answer.
\<close>

definition item_view :: "pylib \<Rightarrow> json \<Rightarrow> (int \<times> json) option" where
  "item_view L item =
     (case and_then (py_getitem item ''contentDetails'') (\<lambda>cd.
           and_then (py_getitem cd ''videoPublishedAt'') (lib_parse_date L)) of
        Inr (Aware t) \<Rightarrow>
          (case and_then (py_getitem item ''contentDetails'') (\<lambda>cd.
                  py_getitem cd ''videoId'') of
             Inr video_id \<Rightarrow> Some (t, video_id)
           | Inl e \<Rightarrow> None)
      | _ \<Rightarrow> None)"

definition page_items :: "pylib \<Rightarrow> json \<Rightarrow> (int \<times> json) list option" where
  "page_items L data =
     (case and_then (py_get data ''items'' (JArr [])) py_iter of
        Inr its \<Rightarrow> those (map (item_view L) its)
      | Inl e \<Rightarrow> None)"

definition qualifying :: "int \<Rightarrow> (int \<times> json) list \<Rightarrow> json list" where
  "qualifying cutoff_date vs = map snd (filter (\<lambda>v. cutoff_date \<le> fst v) vs)"

definition page_ids :: "pylib \<Rightarrow> int \<Rightarrow> json \<Rightarrow> json list" where
  "page_ids L cutoff_date data =
     (case page_items L data of None \<Rightarrow> [] | Some vs \<Rightarrow> qualifying cutoff_date vs)"

definition page_token :: "json \<Rightarrow> json" where
  "page_token data = (case py_get data ''nextPageToken'' JNull of Inr t \<Rightarrow> t | Inl e \<Rightarrow> JNull)"

definition continues :: "pylib \<Rightarrow> int \<Rightarrow> json \<times> 'w \<Rightarrow> bool" where
  "continues L cutoff_date p =
     (page_items L (fst p) \<noteq> None \<and> page_ids L cutoff_date (fst p) \<noteq> []
      \<and> truthy (page_token (fst p)))"

definition stops :: "pylib \<Rightarrow> int \<Rightarrow> json \<times> 'w \<Rightarrow> bool" where
  "stops L cutoff_date p =
     (page_items L (fst p) \<noteq> None
      \<and> (page_ids L cutoff_date (fst p) = [] \<or> \<not> truthy (page_token (fst p))))"

fun serves :: "'w env \<Rightarrow> json \<Rightarrow> json option \<Rightarrow> 'w \<Rightarrow> (json \<times> 'w) list \<Rightarrow> bool" where
  "serves E playlist_id tok w [] = True"
| "serves E playlist_id tok w (p # ps) =
     (fetch_json E (PlaylistItemsGet playlist_id tok) w = (Inr (fst p), snd p)
      \<and> serves E playlist_id (Some (page_token (fst p))) (snd p) ps)"

section \<open>Details of the videos, in batches\<close>

text \<open>\<^verbatim>\<open>get_video_stats_batch\<close>, lines 84 to 96: \<open>batch_starts\<close> is
  \<^verbatim>\<open>range(0, len(video_ids), 50)\<close> and \<open>batches\<close> the slices
  \<^verbatim>\<open>video_ids[i:i + 50]\<close> taken at these indices.\<close>

definition batch_starts :: "nat \<Rightarrow> nat list" where
  "batch_starts n = map (\<lambda>k. 50 * k) [0 ..< (n + 49) div 50]"

definition batches :: "'a list \<Rightarrow> 'a list list" where
  "batches video_ids = map (\<lambda>i. take 50 (drop i video_ids)) (batch_starts (length video_ids))"

fun stats_loop :: "'w env \<Rightarrow> json list list \<Rightarrow> json list \<Rightarrow> 'w \<Rightarrow> (exn + json list) \<times> 'w" where
  "stats_loop E [] stats w = (Inr stats, w)"
| "stats_loop E (batch # bs) stats w =
     (case py_join '','' batch of
        Inl e \<Rightarrow> (Inl e, w)
      | Inr ids \<Rightarrow>
          (case fetch_json E (VideosGet ids) w of
             (Inl e, w1) \<Rightarrow> (Inl e, w1)
           | (Inr j, w1) \<Rightarrow>
               (case and_then (py_get j ''items'' (JArr [])) py_iter of
                  Inl e \<Rightarrow> (Inl e, w1)
                | Inr items \<Rightarrow> stats_loop E bs (stats @ items) w1)))"

definition get_video_stats_batch :: "'w env \<Rightarrow> json list \<Rightarrow> 'w \<Rightarrow> (exn + json list) \<times> 'w" where
  "get_video_stats_batch E video_ids w = stats_loop E (batches video_ids) [] w"

text \<open>What a logged answer to a batch request contributes to the result, and what it means
  that a logged request is the one for a batch: it asks for the comma-joined identifiers
  of the batch.\<close>

definition response_items :: "exn + response \<Rightarrow> json list" where
  "response_items out =
     (case out of
        Inl e \<Rightarrow> []
      | Inr resp \<Rightarrow>
          (case and_then (json_body resp) (\<lambda>j. and_then (py_get j ''items'' (JArr [])) py_iter) of
             Inl e \<Rightarrow> []
           | Inr items \<Rightarrow> items))"

definition batch_request :: "json list \<Rightarrow> request \<times> (exn + response) \<Rightarrow> bool" where
  "batch_request batch p =
     (case py_join '','' batch of Inl e \<Rightarrow> False | Inr ids \<Rightarrow> fst p = VideosGet ids)"

section \<open>The request handler\<close>

text \<open>The entries of \<^verbatim>\<open>update_results\<close>, as the dictionaries the source appends.\<close>

definition entry :: "json \<Rightarrow> string \<Rightarrow> string \<Rightarrow> json" where
  "entry influencer_id status reason =
     JObj [(''influencerId'', influencer_id), (''status'', JStr status), (''reason'', JStr reason)]"

definition success_entry :: "json \<Rightarrow> json" where
  "success_entry influencer_id =
     JObj [(''influencerId'', influencer_id), (''status'', JStr ''success'')]"

text \<open>Lines 178 to 180: the three averages, in the order of the source.\<close>

definition averages :: "metrics \<Rightarrow> exn + int \<times> int \<times> int" where
  "averages m =
     and_then (average (longform_views m)) (\<lambda>avg_views.
     and_then (average (longform_likes m)) (\<lambda>avg_likes.
     and_then (average (longform_comments m)) (\<lambda>avg_comments.
       Inr (avg_views, avg_likes, avg_comments))))"

text \<open>
  One round of the \<^verbatim>\<open>for influencer_id in linked_influencer_ids\<close> loop, lines 139 to
  190. The result is the entry that the round appends, or the exception that leaves the loop
  and the handler, since only the calls of lines 140 and 183 stand in a \<^verbatim>\<open>try\<close>.
\<close>

definition process_influencer ::
  "pylib \<Rightarrow> 'w env \<Rightarrow> int \<Rightarrow> json \<Rightarrow> 'w \<Rightarrow> ((exn + json) \<times> 'w) option" where
  "process_influencer L E cutoff_date influencer_id w =
     (case get_airtable_record E (JStr ''Influencers'') influencer_id w of
        (Inl e, w1) \<Rightarrow>
          Some (Inr (entry influencer_id ''failed''
                  (''Failed to fetch influencer record: '' @ lib_str L e)), w1)
      | (Inr influencer_fields, w1) \<Rightarrow>
      (case py_get influencer_fields ''YouTube Channel ID'' JNull of
        Inl e \<Rightarrow> Some (Inl e, w1)
      | Inr channel_id \<Rightarrow>
      if \<not> truthy channel_id
      then Some (Inr (entry influencer_id ''skipped'' ''No YouTube Channel ID''), w1)
      else
      (case get_uploads_playlist_id E channel_id w1 of
        (Inl e, w2) \<Rightarrow> Some (Inl e, w2)
      | (Inr playlist_id, w2) \<Rightarrow>
      if \<not> truthy playlist_id
      then Some (Inr (entry influencer_id ''skipped'' ''No uploads playlist''), w2)
      else
      (case get_recent_video_ids L E playlist_id cutoff_date w2 of
        None \<Rightarrow> None
      | Some (Inl e, w3) \<Rightarrow> Some (Inl e, w3)
      | Some (Inr video_ids, w3) \<Rightarrow>
      if video_ids = []
      then Some (Inr (entry influencer_id ''skipped'' ''No recent videos''), w3)
      else
      (case get_video_stats_batch E video_ids w3 of
        (Inl e, w4) \<Rightarrow> Some (Inl e, w4)
      | (Inr video_stats, w4) \<Rightarrow>
      (case collect_metrics L video_stats no_metrics of
        (Inl e, m) \<Rightarrow> Some (Inl e, w4)
      | (Inr u, m) \<Rightarrow>
      if longform_views m = []
      then Some (Inr (entry influencer_id ''skipped'' ''No longform videos found''), w4)
      else
      (case averages m of
        Inl e \<Rightarrow> Some (Inl e, w4)
      | Inr (avg_views, avg_likes, avg_comments) \<Rightarrow>
      (case update_airtable_record E (JStr ''Influencers'') influencer_id
              (JObj [(''LGVPV90'', JInt avg_views), (''LGLPV90'', JInt avg_likes),
                     (''LGCPV90'', JInt avg_comments)]) w4 of
        (Inl e, w5) \<Rightarrow>
          Some (Inr (entry influencer_id ''failed''
                  (''Failed to update Airtable: '' @ lib_str L e)), w5)
      | (Inr u', w5) \<Rightarrow> Some (Inr (success_entry influencer_id), w5)))))))))"

fun process_influencers ::
  "pylib \<Rightarrow> 'w env \<Rightarrow> int \<Rightarrow> json list \<Rightarrow> json list \<Rightarrow> 'w
     \<Rightarrow> ((exn + json list) \<times> 'w) option" where
  "process_influencers L E cutoff_date [] update_results w = Some (Inr update_results, w)"
| "process_influencers L E cutoff_date (influencer_id # ids) update_results w =
     (case process_influencer L E cutoff_date influencer_id w of
        None \<Rightarrow> None
      | Some (Inl e, w1) \<Rightarrow> Some (Inl e, w1)
      | Some (Inr r, w1) \<Rightarrow>
          process_influencers L E cutoff_date ids (update_results @ [r]) w1)"

text \<open>
  \<^verbatim>\<open>update_engagement_for_campaign\<close>, lines 115 to 196, on the decoded request body
  (\<open>JNull\<close> where \<^verbatim>\<open>request.get_json()\<close> gives \<^verbatim>\<open>None\<close>). It returns the body and the status
  of the response (200 where the source names none), or the exception that leaves the
  handler; the web framework answers such an exception by itself, outside this code.
  Ninety days are 7776000000000 microseconds.
\<close>

definition missing_id_response :: "json \<times> nat" where
  "missing_id_response =
     (JObj [(''error'', JStr ''Missing 'campaignRecordId' in request body'')], 400)"

definition no_influencers_response :: "json \<times> nat" where
  "no_influencers_response =
     (JObj [(''message'', JStr ''No linked influencers found for this campaign.'')], 200)"

definition complete_response :: "json \<Rightarrow> json list \<Rightarrow> json \<times> nat" where
  "complete_response campaign_record_id update_results =
     (JObj [(''message'', JStr ''Engagement update complete.''),
            (''campaignRecordId'', campaign_record_id),
            (''results'', JArr update_results)], 200)"

definition update_engagement_for_campaign ::
  "pylib \<Rightarrow> 'w env \<Rightarrow> json \<Rightarrow> 'w \<Rightarrow> ((exn + json \<times> nat) \<times> 'w) option" where
  "update_engagement_for_campaign L E data w =
     (if \<not> truthy data then Some (Inr missing_id_response, w)
      else
      (case py_contains data ''campaignRecordId'' of
        Inl e \<Rightarrow> Some (Inl e, w)
      | Inr present \<Rightarrow>
      if \<not> present then Some (Inr missing_id_response, w)
      else
      (case py_getitem data ''campaignRecordId'' of
        Inl e \<Rightarrow> Some (Inl e, w)
      | Inr campaign_record_id \<Rightarrow>
      (case py_get data ''campaignTableName'' (JStr ''Campaigns'') of
        Inl e \<Rightarrow> Some (Inl e, w)
      | Inr campaign_table \<Rightarrow>
      (case get_airtable_record E campaign_table campaign_record_id w of
        (Inl e, w1) \<Rightarrow>
          Some (Inr (JObj [(''error'',
                  JStr (''Failed to fetch campaign record: '' @ lib_str L e))], 500), w1)
      | (Inr campaign_fields, w1) \<Rightarrow>
      (case py_get campaign_fields ''Creator'' (JArr []) of
        Inl e \<Rightarrow> Some (Inl e, w1)
      | Inr linked_influencer_ids \<Rightarrow>
      if \<not> truthy linked_influencer_ids then Some (Inr no_influencers_response, w1)
      else
      (case py_iter linked_influencer_ids of
        Inl e \<Rightarrow> Some (Inl e, w1)
      | Inr ids \<Rightarrow>
      (case process_influencers L E (utcnow E w1 - 7776000000000) ids [] w1 of
        None \<Rightarrow> None
      | Some (Inl e, w2) \<Rightarrow> Some (Inl e, w2)
      | Some (Inr update_results, w2) \<Rightarrow>
          Some (Inr (complete_response campaign_record_id update_results), w2)))))))))"

text \<open>What the response promises of an entry of the report: it names its influencer and
  has one of the three statuses.\<close>

definition valid_entry :: "json \<Rightarrow> json \<Rightarrow> bool" where
  "valid_entry influencer_id r =
     (py_getitem r ''influencerId'' = Inr influencer_id
      \<and> py_getitem r ''status'' \<in>
            {Inr (JStr ''success''), Inr (JStr ''skipped''), Inr (JStr ''failed'')})"

section \<open>Observing the requests\<close>

text \<open>
  \<open>traced E\<close> is the environment \<open>E\<close> with a log: every request is appended to it with
  its outcome, in the order in which the code sends them. The functions above do not depend
  on the type of the world, so what they do in \<open>traced E\<close> is what they do in \<open>E\<close>, with the
  requests made visible.
\<close>

type_synonym trace = "(request \<times> (exn + response)) list"

definition traced :: "'w env \<Rightarrow> ('w \<times> trace) env" where
  "traced E =
     \<lparr>send = (\<lambda>req (w, tr). case send E req w of (r, w') \<Rightarrow> (r, (w', tr @ [(req, r)]))),
      utcnow = (\<lambda>(w, tr). utcnow E w)\<rparr>"

section \<open>Sample data\<close>

text \<open>Concrete library behaviour, videos and services, on which the theorems below are
  run. \<open>sample_lib\<close> refuses whatever the fragments above leave open and reads a date
  given as a number of microseconds.\<close>

definition sample_lib :: pylib where
  "sample_lib =
     \<lparr>lib_int = (\<lambda>s. Inl (LibraryError s)),
      lib_parse_duration = (\<lambda>s. Inl (LibraryError s)),
      lib_parse_date = (\<lambda>j. case j of JInt t \<Rightarrow> Inr (Aware t) | _ \<Rightarrow> Inl (LibraryError [])),
      lib_str = (\<lambda>e. case e of HTTPError n \<Rightarrow> ''HTTP error'' | _ \<Rightarrow> ''error'')\<rparr>"

definition video :: "string \<Rightarrow> (string \<times> json) list \<Rightarrow> json" where
  "video duration stats =
     JObj [(''contentDetails'', JObj [(''duration'', JStr duration)]),
           (''statistics'', JObj stats)]"

definition no_duration_video :: json where
  "no_duration_video = JObj [(''contentDetails'', JObj [])]"

definition bare_video :: json where
  "bare_video = JObj [(''contentDetails'', JObj [(''duration'', JStr ''PT5M'')])]"

definition bad_views_video :: json where
  "bad_views_video = video ''PT5M'' [(''viewCount'', JStr ''n/a'')]"

definition bad_likes_video :: json where
  "bad_likes_video =
     video ''PT5M'' [(''viewCount'', JStr ''10''), (''likeCount'', JStr ''many''),
                     (''commentCount'', JStr ''3'')]"

definition bad_comments_video :: json where
  "bad_comments_video =
     video ''PT5M'' [(''viewCount'', JStr ''10''), (''likeCount'', JStr ''2''),
                     (''commentCount'', JNull)]"

text \<open>
  A service without memory: it answers a request by a fixed function, and the state of the
  world counts the requests. \<open>sample_service\<close> knows three campaigns (\<open>camp0\<close> without
  linked influencers, \<open>camp1\<close> with \<open>recA\<close> and \<open>recB\<close>, \<open>camp2\<close> with \<open>recB\<close> and
  \<open>recC\<close>) and two influencers (\<open>recA\<close> with a channel, \<open>recB\<close> without); its channel
  lookup fails with status 500, and everything else is not found.
\<close>

definition ok :: "json \<Rightarrow> exn + response" where
  "ok j = Inr \<lparr>status_code = 200, json_body = Inr j\<rparr>"

definition status_only :: "nat \<Rightarrow> exn + response" where
  "status_only n = Inr \<lparr>status_code = n, json_body = Inr JNull\<rparr>"

definition service :: "(request \<Rightarrow> exn + response) \<Rightarrow> nat env" where
  "service f = \<lparr>send = (\<lambda>req n. (f req, Suc n)), utcnow = (\<lambda>n. 0)\<rparr>"

definition record_of :: "(string \<times> json) list \<Rightarrow> exn + response" where
  "record_of flds = ok (JObj [(''id'', JStr ''rec''), (''fields'', JObj flds)])"

fun sample_service :: "request \<Rightarrow> exn + response" where
  "sample_service (AirtableGet t i) =
     (if t = JStr ''Campaigns'' \<and> i = JStr ''camp0'' then record_of [(''Name'', JStr ''Zero'')]
      else if t = JStr ''Campaigns'' \<and> i = JStr ''camp1''
        then record_of [(''Creator'', JArr [JStr ''recA'', JStr ''recB''])]
      else if t = JStr ''Campaigns'' \<and> i = JStr ''camp2''
        then record_of [(''Creator'', JArr [JStr ''recB'', JStr ''recC''])]
      else if t = JStr ''Influencers'' \<and> i = JStr ''recA''
        then record_of [(''YouTube Channel ID'', JStr ''UC1'')]
      else if t = JStr ''Influencers'' \<and> i = JStr ''recB''
        then record_of [(''Name'', JStr ''B''), (''YouTube Channel ID'', JStr [])]
      else status_only 404)"
| "sample_service (ChannelsGet c) = status_only 500"
| "sample_service _ = status_only 404"

text \<open>A video platform that answers a batch request with one item, which repeats the
  identifiers asked for.\<close>

fun echo_service :: "request \<Rightarrow> exn + response" where
  "echo_service (VideosGet ids) = ok (JObj [(''items'', JArr [JStr ids])])"
| "echo_service _ = status_only 404"

text \<open>A playlist of two pages: the first has two items published after instant 50 and the
  token of the second; the second has two older items and the token of a third page.\<close>

definition playlist_item :: "int \<Rightarrow> string \<Rightarrow> json" where
  "playlist_item t v =
     JObj [(''contentDetails'', JObj [(''videoId'', JStr v), (''videoPublishedAt'', JInt t)])]"

definition page1 :: json where
  "page1 = JObj [(''items'', JArr [playlist_item 100 ''a'', playlist_item 90 ''b'']),
                 (''nextPageToken'', JStr ''t2'')]"

definition page2 :: json where
  "page2 = JObj [(''items'', JArr [playlist_item 10 ''c'', playlist_item 5 ''d'']),
                 (''nextPageToken'', JStr ''t3'')]"

fun playlist_service :: "request \<Rightarrow> exn + response" where
  "playlist_service (PlaylistItemsGet playlist_id tok) =
     (if tok = None then ok page1
      else if tok = Some (JStr ''t2'') then ok page2
      else status_only 404)"
| "playlist_service _ = status_only 404"

text \<open>A campaign for which every step succeeds: one influencer, one page of three recent
  uploads, of which two are long-form (views 100 and 200, likes 10 and 20, comments 1 and 3)
  and one is short.\<close>

definition full_video :: "string \<Rightarrow> int \<Rightarrow> int \<Rightarrow> int \<Rightarrow> json" where
  "full_video duration views likes comments =
     JObj [(''contentDetails'', JObj [(''duration'', JStr duration)]),
           (''statistics'', JObj [(''viewCount'', JInt views), (''likeCount'', JInt likes),
                                  (''commentCount'', JInt comments)])]"

fun full_service :: "request \<Rightarrow> exn + response" where
  "full_service (AirtableGet t i) =
     (if t = JStr ''Campaigns'' then record_of [(''Creator'', JArr [JStr ''recD''])]
      else record_of [(''YouTube Channel ID'', JStr ''UC9'')])"
| "full_service (ChannelsGet c) =
     ok (JObj [(''items'', JArr [JObj [(''contentDetails'',
          JObj [(''relatedPlaylists'', JObj [(''uploads'', JStr ''UU9'')])])]])])"
| "full_service (PlaylistItemsGet p tok) =
     ok (JObj [(''items'', JArr [playlist_item 3 ''v1'', playlist_item 2 ''v2'',
                                  playlist_item 1 ''v3''])])"
| "full_service (VideosGet ids) =
     ok (JObj [(''items'', JArr [full_video ''PT10M'' 100 10 1, full_video ''PT45S'' 999 99 9,
                                  full_video ''PT1H'' 200 20 3])])"
| "full_service (AirtablePatch t i payload) = ok (JObj [(''id'', i)])"

section \<open>Properties of the duration classifier\<close>

lemmas duration_defs = simple_duration_def opt_component_def component_def time_part_def
  is_digit_def nat_of_digits_def digit_val_def

lemma is_longform_eq:
  "is_longform L d =
     Inr (case parse_duration L d of Inl e \<Rightarrow> False | Inr t \<Rightarrow> 180 \<le> total_seconds t)"
  by (simp add: is_longform_def is_longform_try_def split: sum.split)

lemma parse_PT3M0S: "parse_duration L (JStr ''PT3M0S'') = Inr (Timedelta 180)"
  by (simp add: duration_defs)

lemma parse_PT2M59S: "parse_duration L (JStr ''PT2M59S'') = Inr (Timedelta 179)"
  by (simp add: duration_defs)

lemma parse_PT5M: "parse_duration L (JStr ''PT5M'') = Inr (Timedelta 300)"
  by (simp add: duration_defs)

lemma parse_not_a_duration: "parse_duration L (JStr ''not-a-duration'') = Inl ISO8601Error"
  by (simp add: duration_defs)

text \<open>
  C5. \<^verbatim>\<open>is_longform\<close> always returns a truth value and never an exception: the value is
  true exactly when the duration parses and its total of seconds is at least 180, and false
  when parsing raises. \<^verbatim>\<open>PT3M0S\<close> is long-form, \<^verbatim>\<open>PT2M59S\<close> and
  \<^verbatim>\<open>not-a-duration\<close> are not.
\<close>

theorem is_longform_threshold:
  "is_longform L d =
     Inr (case parse_duration L d of Inl e \<Rightarrow> False | Inr t \<Rightarrow> 180 \<le> total_seconds t)
   \<and> is_longform L (JStr ''PT3M0S'') = Inr True
   \<and> is_longform L (JStr ''PT2M59S'') = Inr False
   \<and> is_longform L (JStr ''not-a-duration'') = Inr False"
proof -
  have a: "is_longform L (JStr ''PT3M0S'') = Inr True"
    by (simp only: is_longform_eq parse_PT3M0S) simp
  have b: "is_longform L (JStr ''PT2M59S'') = Inr False"
    by (simp only: is_longform_eq parse_PT2M59S) simp
  have c: "is_longform L (JStr ''not-a-duration'') = Inr False"
    by (simp only: is_longform_eq parse_not_a_duration) simp
  from a b c show ?thesis using is_longform_eq [of L d] by blast
qed

section \<open>Properties of the metric collection\<close>

lemma collect_video_ok: "fst (collect_video L v m) = Inr ()"
  by (simp add: collect_video_def split: prod.split sum.split)

lemma collect_metrics_ok: "fst (collect_metrics L videos m) = Inr ()"
proof (induction videos arbitrary: m)
  case Nil
  show ?case by simp
next
  case (Cons v vs)
  obtain m' where "collect_video L v m = (Inr (), m')"
    using collect_video_ok [of L v m] by (cases "collect_video L v m") auto
  then show ?case using Cons.IH [of m'] by simp
qed

lemma collect_video_no_duration:
  "video_duration v = Inl e \<Longrightarrow> collect_video L v m = (Inr (), m)"
  by (simp add: collect_video_def collect_video_try_def and_then_def)

lemma collect_video_malformed:
  "video_duration v = Inr d \<Longrightarrow> parse_duration L d = Inl e
   \<Longrightarrow> collect_video L v m = (Inr (), m)"
  by (simp add: collect_video_def collect_video_try_def and_then_def is_longform_eq)

lemma collect_video_bad_views:
  "video_duration v = Inr d \<Longrightarrow> is_longform L d = Inr True
   \<Longrightarrow> py_get v ''statistics'' (JObj []) = Inr stats
   \<Longrightarrow> count_of L stats ''viewCount'' = Inl e
   \<Longrightarrow> collect_video L v m = (Inr (), m)"
  by (simp add: collect_video_def collect_video_try_def and_then_def)

lemma collect_video_bad_likes:
  "video_duration v = Inr d \<Longrightarrow> is_longform L d = Inr True
   \<Longrightarrow> py_get v ''statistics'' (JObj []) = Inr stats
   \<Longrightarrow> count_of L stats ''viewCount'' = Inr n
   \<Longrightarrow> count_of L stats ''likeCount'' = Inl e
   \<Longrightarrow> collect_video L v m = (Inr (), m\<lparr>longform_views := longform_views m @ [n]\<rparr>)"
  by (simp add: collect_video_def collect_video_try_def and_then_def)

lemma collect_video_bad_comments:
  "video_duration v = Inr d \<Longrightarrow> is_longform L d = Inr True
   \<Longrightarrow> py_get v ''statistics'' (JObj []) = Inr stats
   \<Longrightarrow> count_of L stats ''viewCount'' = Inr n
   \<Longrightarrow> count_of L stats ''likeCount'' = Inr l
   \<Longrightarrow> count_of L stats ''commentCount'' = Inl e
   \<Longrightarrow> collect_video L v m =
       (Inr (), m\<lparr>longform_views := longform_views m @ [n],
                  longform_likes := longform_likes m @ [l]\<rparr>)"
  by (simp add: collect_video_def collect_video_try_def and_then_def)

lemmas collect_defs = collect_video_def collect_video_try_def and_then_def video_duration_def
  is_longform_def is_longform_try_def count_of_def no_metrics_def plain_digits_def video_def

lemma collect_bare_video:
  "collect_metrics L [bare_video] no_metrics =
     (Inr (), \<lparr>longform_views = [0], longform_likes = [0], longform_comments = [0]\<rparr>)"
  by (simp add: bare_video_def collect_defs duration_defs)

lemma collect_bad_likes_video:
  "collect_metrics L [bad_likes_video] no_metrics =
     (Inr (), \<lparr>longform_views = [10], longform_likes = [], longform_comments = []\<rparr>)"
  by (simp add: bad_likes_video_def collect_defs duration_defs is_ascii_def)

text \<open>
  C10. The loop over the video details never raises, whatever the items are. An item whose
  duration is missing, or does not parse, leaves the three lists as they were. An item whose
  view, like or comment count is not an integer stops at that count: the counts read before
  it stay appended, so the lists can end with different lengths. A long-form item without
  statistics counts as 0, 0, 0; the item \<open>bad_likes_video\<close> gives one view count and no
  like or comment count.
\<close>

theorem collect_metrics_never_raises:
  "fst (collect_metrics L videos m) = Inr ()
   \<and> (video_duration v = Inl e \<longrightarrow> collect_video L v m = (Inr (), m))
   \<and> (video_duration v = Inr d \<and> parse_duration L d = Inl e \<longrightarrow>
        collect_video L v m = (Inr (), m))
   \<and> (video_duration v = Inr d \<and> is_longform L d = Inr True
        \<and> py_get v ''statistics'' (JObj []) = Inr stats
        \<and> count_of L stats ''viewCount'' = Inl e \<longrightarrow>
        collect_video L v m = (Inr (), m))
   \<and> (video_duration v = Inr d \<and> is_longform L d = Inr True
        \<and> py_get v ''statistics'' (JObj []) = Inr stats
        \<and> count_of L stats ''viewCount'' = Inr n
        \<and> count_of L stats ''likeCount'' = Inl e \<longrightarrow>
        collect_video L v m = (Inr (), m\<lparr>longform_views := longform_views m @ [n]\<rparr>))
   \<and> (video_duration v = Inr d \<and> is_longform L d = Inr True
        \<and> py_get v ''statistics'' (JObj []) = Inr stats
        \<and> count_of L stats ''viewCount'' = Inr n
        \<and> count_of L stats ''likeCount'' = Inr l
        \<and> count_of L stats ''commentCount'' = Inl e \<longrightarrow>
        collect_video L v m =
          (Inr (), m\<lparr>longform_views := longform_views m @ [n],
                     longform_likes := longform_likes m @ [l]\<rparr>))
   \<and> collect_metrics L [bare_video] no_metrics =
        (Inr (), \<lparr>longform_views = [0], longform_likes = [0], longform_comments = [0]\<rparr>)
   \<and> collect_metrics L [bad_likes_video] no_metrics =
        (Inr (), \<lparr>longform_views = [10], longform_likes = [], longform_comments = []\<rparr>)"
  using collect_metrics_ok [of L videos m] collect_video_no_duration [of v e L m]
    collect_video_malformed [of v d L e m] collect_video_bad_views [of v d L stats e m]
    collect_video_bad_likes [of v d L stats n e m]
    collect_video_bad_comments [of v d L stats n l e m]
    collect_bare_video [of L] collect_bad_likes_video [of L]
  by blast

theorem collect_metrics_never_raises_witness:
  "collect_video sample_lib no_duration_video no_metrics = (Inr (), no_metrics)
   \<and> collect_video sample_lib (video ''soon'' []) no_metrics = (Inr (), no_metrics)
   \<and> collect_video sample_lib bad_views_video no_metrics = (Inr (), no_metrics)
   \<and> collect_video sample_lib bad_likes_video no_metrics =
        (Inr (), \<lparr>longform_views = [10], longform_likes = [], longform_comments = []\<rparr>)
   \<and> collect_video sample_lib bad_comments_video no_metrics =
        (Inr (), \<lparr>longform_views = [10], longform_likes = [2], longform_comments = []\<rparr>)"
proof -
  let ?st1 = "JObj [(''viewCount'', JStr ''n/a'')]"
  let ?st2 = "JObj [(''viewCount'', JStr ''10''), (''likeCount'', JStr ''many''),
                    (''commentCount'', JStr ''3'')]"
  let ?st3 = "JObj [(''viewCount'', JStr ''10''), (''likeCount'', JStr ''2''),
                    (''commentCount'', JNull)]"
  have five: "is_longform sample_lib (JStr ''PT5M'') = Inr True"
    by (simp only: is_longform_eq parse_PT5M) simp
  have a: "video_duration no_duration_video = Inl KeyError"
    by (simp add: no_duration_video_def video_duration_def and_then_def)
  have b: "video_duration (video ''soon'' []) = Inr (JStr ''soon'')
           \<and> parse_duration sample_lib (JStr ''soon'') = Inl ISO8601Error"
    by (simp add: video_def video_duration_def and_then_def duration_defs)
  have c: "video_duration bad_views_video = Inr (JStr ''PT5M'')
           \<and> py_get bad_views_video ''statistics'' (JObj []) = Inr ?st1
           \<and> count_of sample_lib ?st1 ''viewCount'' = Inl ValueError"
    by (simp add: bad_views_video_def video_def video_duration_def and_then_def count_of_def
        plain_digits_def is_digit_def is_ascii_def)
  have d: "video_duration bad_likes_video = Inr (JStr ''PT5M'')
           \<and> py_get bad_likes_video ''statistics'' (JObj []) = Inr ?st2
           \<and> count_of sample_lib ?st2 ''viewCount'' = Inr 10
           \<and> count_of sample_lib ?st2 ''likeCount'' = Inl ValueError"
    by (simp add: bad_likes_video_def video_def video_duration_def and_then_def count_of_def
        plain_digits_def is_digit_def is_ascii_def nat_of_digits_def digit_val_def)
  have e: "video_duration bad_comments_video = Inr (JStr ''PT5M'')
           \<and> py_get bad_comments_video ''statistics'' (JObj []) = Inr ?st3
           \<and> count_of sample_lib ?st3 ''viewCount'' = Inr 10
           \<and> count_of sample_lib ?st3 ''likeCount'' = Inr 2
           \<and> count_of sample_lib ?st3 ''commentCount'' = Inl TypeError"
    by (simp add: bad_comments_video_def video_def video_duration_def and_then_def count_of_def
        plain_digits_def is_digit_def is_ascii_def nat_of_digits_def digit_val_def)
  show ?thesis
    using a b c d e five
      collect_metrics_never_raises [of sample_lib "[]" no_metrics no_duration_video KeyError]
      collect_metrics_never_raises [of sample_lib "[]" no_metrics "video ''soon'' []"
        ISO8601Error "JStr ''soon''"]
      collect_metrics_never_raises [of sample_lib "[]" no_metrics bad_views_video
        ValueError "JStr ''PT5M''" ?st1]
      collect_metrics_never_raises [of sample_lib "[]" no_metrics bad_likes_video
        ValueError "JStr ''PT5M''" ?st2 10]
      collect_metrics_never_raises [of sample_lib "[]" no_metrics bad_comments_video
        TypeError "JStr ''PT5M''" ?st3 10 2]
    by (simp add: no_metrics_def)
qed

section \<open>Properties of the handler\<close>

lemma fetch_json_traced:
  "fetch_json (traced E) req (w, tr) = (r, s1) \<Longrightarrow> map fst (snd s1) = map fst tr @ [req]"
  by (auto simp: fetch_json_def traced_def split: prod.splits sum.splits)

lemma get_airtable_record_traced:
  "get_airtable_record (traced E) t i (w, tr) = (r, s1)
   \<Longrightarrow> map fst (snd s1) = map fst tr @ [AirtableGet t i]"
  by (auto simp: get_airtable_record_def split: prod.splits sum.splits dest: fetch_json_traced)

lemma process_influencer_no_channel:
  assumes "get_airtable_record E (JStr ''Influencers'') influencer_id w = (Inr (JObj kvs), w1)"
    and "case map_of kvs ''YouTube Channel ID'' of None \<Rightarrow> True | Some c \<Rightarrow> \<not> truthy c"
  shows "process_influencer L E cutoff_date influencer_id w =
           Some (Inr (entry influencer_id ''skipped'' ''No YouTube Channel ID''), w1)"
  using assms by (simp add: process_influencer_def split: option.splits)

lemma handler_no_influencers:
  assumes "map_of kvs ''campaignRecordId'' = Some campaign_record_id"
    and "campaign_table = (case map_of kvs ''campaignTableName'' of
                             None \<Rightarrow> JStr ''Campaigns'' | Some t \<Rightarrow> t)"
    and "get_airtable_record E campaign_table campaign_record_id w = (Inr (JObj flds), w1)"
    and "case map_of flds ''Creator'' of None \<Rightarrow> True | Some l \<Rightarrow> \<not> truthy l"
  shows "update_engagement_for_campaign L E (JObj kvs) w = Some (Inr no_influencers_response, w1)"
proof -
  from assms(1) have k: "''campaignRecordId'' \<in> fst ` set kvs" and ne: "kvs \<noteq> []"
    by (auto dest: map_of_SomeD intro: rev_image_eqI)
  show ?thesis using assms k ne
    by (simp add: update_engagement_for_campaign_def split: option.splits)
qed

lemmas service_defs = service_def traced_def ok_def status_only_def record_of_def
  fetch_json_def get_airtable_record_def raise_for_status_def

text \<open>
  C7, as the code has it. When the record fetched for an influencer has no
  \<^verbatim>\<open>YouTube Channel ID\<close> field, or a falsy one (\<^verbatim>\<open>None\<close>, an empty string), the
  entry of that influencer is \<^verbatim>\<open>skipped\<close> with the reason \<^verbatim>\<open>No YouTube Channel ID\<close>,
  and the fetch of the record is the only request sent for it: no request goes to the video
  platform.
\<close>

theorem no_channel_id_skipped:
  assumes "get_airtable_record (traced E) (JStr ''Influencers'') influencer_id (w, tr) =
             (Inr (JObj kvs), s1)"
    and "case map_of kvs ''YouTube Channel ID'' of None \<Rightarrow> True | Some c \<Rightarrow> \<not> truthy c"
  shows "process_influencer L (traced E) cutoff_date influencer_id (w, tr) =
           Some (Inr (JObj [(''influencerId'', influencer_id), (''status'', JStr ''skipped''),
                            (''reason'', JStr ''No YouTube Channel ID'')]), s1)
         \<and> map fst (snd s1) = map fst tr @ [AirtableGet (JStr ''Influencers'') influencer_id]"
  using process_influencer_no_channel [OF assms, of L cutoff_date]
    get_airtable_record_traced [OF assms(1)]
  by (simp add: entry_def)

theorem no_channel_id_skipped_witness:
  "process_influencer sample_lib (traced (service sample_service)) 0 (JStr ''recB'') (0, []) =
     Some (Inr (JObj [(''influencerId'', JStr ''recB''), (''status'', JStr ''skipped''),
                      (''reason'', JStr ''No YouTube Channel ID'')]),
           (1, [(AirtableGet (JStr ''Influencers'') (JStr ''recB''),
                 record_of [(''Name'', JStr ''B''), (''YouTube Channel ID'', JStr [])])]))"
proof -
  let ?kvs = "[(''Name'', JStr ''B''), (''YouTube Channel ID'', JStr [])]"
  let ?s1 = "(1::nat, [(AirtableGet (JStr ''Influencers'') (JStr ''recB''), record_of ?kvs)])"
  have a: "get_airtable_record (traced (service sample_service)) (JStr ''Influencers'')
             (JStr ''recB'') (0, []) = (Inr (JObj ?kvs), ?s1)"
    by (simp add: service_defs)
  have b: "case map_of ?kvs ''YouTube Channel ID'' of None \<Rightarrow> True | Some c \<Rightarrow> \<not> truthy c"
    by simp
  from no_channel_id_skipped [OF a b, of sample_lib 0] show ?thesis by simp
qed

text \<open>
  The reason that C7 quotes, \<^verbatim>\<open>no channel id\<close>, is not the reason of the entry: for the
  influencer \<open>recB\<close>, whose channel id is empty, the entry differs from the one with that
  reason.
\<close>

theorem no_channel_id_reason_counterexample:
  "process_influencer sample_lib (service sample_service) 0 (JStr ''recB'') 0 \<noteq>
     Some (Inr (JObj [(''influencerId'', JStr ''recB''), (''status'', JStr ''skipped''),
                      (''reason'', JStr ''no channel id'')]), 1)"
  by (simp add: process_influencer_def service_defs entry_def)

text \<open>
  C8. When the record fetched for the campaign has no \<^verbatim>\<open>Creator\<close> field, or a falsy one
  (an empty list), the handler answers with status 200 and the message that no linked
  influencers were found, and the fetch of the campaign record is the only request of the
  whole run: no influencer is read and the video platform is not called.
\<close>

theorem no_linked_influencers:
  assumes "map_of kvs ''campaignRecordId'' = Some campaign_record_id"
    and "campaign_table = (case map_of kvs ''campaignTableName'' of
                             None \<Rightarrow> JStr ''Campaigns'' | Some t \<Rightarrow> t)"
    and "get_airtable_record (traced E) campaign_table campaign_record_id (w, tr) =
           (Inr (JObj flds), s1)"
    and "case map_of flds ''Creator'' of None \<Rightarrow> True | Some l \<Rightarrow> \<not> truthy l"
  shows "update_engagement_for_campaign L (traced E) (JObj kvs) (w, tr) =
           Some (Inr (JObj [(''message'',
                   JStr ''No linked influencers found for this campaign.'')], 200), s1)
         \<and> map fst (snd s1) = map fst tr @ [AirtableGet campaign_table campaign_record_id]"
  using handler_no_influencers [OF assms, of L] get_airtable_record_traced [OF assms(3)]
  by (simp add: no_influencers_response_def)

theorem no_linked_influencers_witness:
  "update_engagement_for_campaign sample_lib (traced (service sample_service))
     (JObj [(''campaignRecordId'', JStr ''camp0'')]) (0, []) =
     Some (Inr (JObj [(''message'',
             JStr ''No linked influencers found for this campaign.'')], 200),
           (1, [(AirtableGet (JStr ''Campaigns'') (JStr ''camp0''),
                 record_of [(''Name'', JStr ''Zero'')])]))"
proof -
  let ?kvs = "[(''campaignRecordId'', JStr ''camp0'')]"
  let ?flds = "[(''Name'', JStr ''Zero'')]"
  let ?s1 = "(1::nat, [(AirtableGet (JStr ''Campaigns'') (JStr ''camp0''), record_of ?flds)])"
  have a: "map_of ?kvs ''campaignRecordId'' = Some (JStr ''camp0'')" by simp
  have b: "JStr ''Campaigns'' = (case map_of ?kvs ''campaignTableName'' of
                                   None \<Rightarrow> JStr ''Campaigns'' | Some t \<Rightarrow> t)" by simp
  have c: "get_airtable_record (traced (service sample_service)) (JStr ''Campaigns'')
             (JStr ''camp0'') (0, []) = (Inr (JObj ?flds), ?s1)"
    by (simp add: service_defs)
  have d: "case map_of ?flds ''Creator'' of None \<Rightarrow> True | Some l \<Rightarrow> \<not> truthy l" by simp
  from no_linked_influencers [OF a b c d, of sample_lib] show ?thesis by simp
qed

lemma process_influencer_entry:
  "process_influencer L E c i w = Some (Inr r, w') \<Longrightarrow> valid_entry i r"
  unfolding process_influencer_def
  by (auto simp: valid_entry_def entry_def success_entry_def
      split: prod.splits sum.splits option.splits if_splits)

lemma process_influencers_entries:
  "process_influencers L E c ids acc w = Some (Inr results, w')
   \<Longrightarrow> \<exists>entries. results = acc @ entries \<and> list_all2 valid_entry ids entries"
proof (induction ids arbitrary: acc w)
  case Nil
  then show ?case by simp
next
  case (Cons i ids)
  from Cons.prems obtain r w1 where
    one: "process_influencer L E c i w = Some (Inr r, w1)" and
    rest: "process_influencers L E c ids (acc @ [r]) w1 = Some (Inr results, w')"
    by (auto split: option.splits sum.splits prod.splits)
  from Cons.IH [OF rest] obtain entries where
    "results = (acc @ [r]) @ entries" "list_all2 valid_entry ids entries" by blast
  with process_influencer_entry [OF one] show ?case by auto
qed

lemma handler_missing_id:
  "\<not> truthy data \<or> py_contains data ''campaignRecordId'' = Inr False
   \<Longrightarrow> update_engagement_for_campaign L E data w = Some (Inr missing_id_response, w)"
  by (auto simp: update_engagement_for_campaign_def)

lemma has_key: "map_of kvs k = Some v \<Longrightarrow> k \<in> fst ` set kvs \<and> kvs \<noteq> []"
  by (auto dest: map_of_SomeD intro: rev_image_eqI)

lemma handler_fetch_failed:
  assumes "map_of kvs ''campaignRecordId'' = Some campaign_record_id"
    and "campaign_table = (case map_of kvs ''campaignTableName'' of
                             None \<Rightarrow> JStr ''Campaigns'' | Some t \<Rightarrow> t)"
    and "get_airtable_record E campaign_table campaign_record_id w = (Inl e, w1)"
  shows "update_engagement_for_campaign L E (JObj kvs) w =
           Some (Inr (JObj [(''error'',
                   JStr (''Failed to fetch campaign record: '' @ lib_str L e))], 500), w1)"
  using assms has_key [OF assms(1)]
  by (simp add: update_engagement_for_campaign_def split: option.splits)

lemma handler_complete:
  assumes "map_of kvs ''campaignRecordId'' = Some campaign_record_id"
    and "campaign_table = (case map_of kvs ''campaignTableName'' of
                             None \<Rightarrow> JStr ''Campaigns'' | Some t \<Rightarrow> t)"
    and "get_airtable_record E campaign_table campaign_record_id w = (Inr (JObj flds), w1)"
    and "map_of flds ''Creator'' = Some linked" and "truthy linked"
    and "py_iter linked = Inr ids"
  shows "update_engagement_for_campaign L E (JObj kvs) w =
           (case process_influencers L E (utcnow E w1 - 7776000000000) ids [] w1 of
              None \<Rightarrow> None
            | Some (Inl e, w2) \<Rightarrow> Some (Inl e, w2)
            | Some (Inr update_results, w2) \<Rightarrow>
                Some (Inr (complete_response campaign_record_id update_results), w2))"
  using assms has_key [OF assms(1)]
  by (simp add: update_engagement_for_campaign_def split: option.splits)

lemmas handler_defs = update_engagement_for_campaign_def process_influencer_def
  entry_def success_entry_def complete_response_def no_influencers_response_def
  missing_id_response_def

lemma camp2_run:
  "update_engagement_for_campaign sample_lib (service sample_service)
     (JObj [(''campaignRecordId'', JStr ''camp2'')]) 0 =
   Some (Inr (JObj [(''message'', JStr ''Engagement update complete.''),
                    (''campaignRecordId'', JStr ''camp2''),
                    (''results'', JArr [
                       JObj [(''influencerId'', JStr ''recB''), (''status'', JStr ''skipped''),
                             (''reason'', JStr ''No YouTube Channel ID'')],
                       JObj [(''influencerId'', JStr ''recC''), (''status'', JStr ''failed''),
                             (''reason'',
                              JStr ''Failed to fetch influencer record: HTTP error'')]])],
              200), 3)"
  by (simp add: handler_defs service_defs sample_lib_def)

lemma camp2_record:
  "get_airtable_record (service sample_service) (JStr ''Campaigns'') (JStr ''camp2'') 0 =
     (Inr (JObj [(''Creator'', JArr [JStr ''recB'', JStr ''recC''])]), 1)"
  by (simp add: service_defs)

text \<open>
  C9. When the campaign record was fetched, its \<^verbatim>\<open>Creator\<close> field is truthy and the handler
  returns a response, the status is 200 and the body has a \<^verbatim>\<open>results\<close> list with exactly
  one entry for each linked identifier, in the order of the linked list; each entry carries
  the identifier of its influencer and one of the statuses \<^verbatim>\<open>success\<close>, \<^verbatim>\<open>skipped\<close>,
  \<^verbatim>\<open>failed\<close>.
\<close>

theorem report_one_entry_per_influencer:
  assumes "map_of kvs ''campaignRecordId'' = Some campaign_record_id"
    and "campaign_table = (case map_of kvs ''campaignTableName'' of
                             None \<Rightarrow> JStr ''Campaigns'' | Some t \<Rightarrow> t)"
    and "get_airtable_record E campaign_table campaign_record_id w = (Inr (JObj flds), w1)"
    and "map_of flds ''Creator'' = Some linked" and "truthy linked"
    and "py_iter linked = Inr ids"
    and "update_engagement_for_campaign L E (JObj kvs) w = Some (Inr (body, status), w2)"
  shows "status = 200 \<and>
         (\<exists>entries. py_getitem body ''results'' = Inr (JArr entries)
                    \<and> list_all2 valid_entry ids entries)"
proof -
  from assms(7) handler_complete [OF assms(1-6), of L]
  obtain results where
    run: "process_influencers L E (utcnow E w1 - 7776000000000) ids [] w1 =
            Some (Inr results, w2)"
    and resp: "(body, status) = complete_response campaign_record_id results"
    by (auto split: option.splits sum.splits prod.splits)
  from process_influencers_entries [OF run] have "list_all2 valid_entry ids results" by simp
  with resp show ?thesis by (auto simp: complete_response_def)
qed

theorem report_one_entry_per_influencer_witness:
  "list_all2 valid_entry [JStr ''recB'', JStr ''recC'']
     [JObj [(''influencerId'', JStr ''recB''), (''status'', JStr ''skipped''),
            (''reason'', JStr ''No YouTube Channel ID'')],
      JObj [(''influencerId'', JStr ''recC''), (''status'', JStr ''failed''),
            (''reason'', JStr ''Failed to fetch influencer record: HTTP error'')]]"
proof -
  let ?kvs = "[(''campaignRecordId'', JStr ''camp2'')]"
  let ?linked = "JArr [JStr ''recB'', JStr ''recC'']"
  have a: "map_of ?kvs ''campaignRecordId'' = Some (JStr ''camp2'')" by simp
  have b: "JStr ''Campaigns'' = (case map_of ?kvs ''campaignTableName'' of
                                   None \<Rightarrow> JStr ''Campaigns'' | Some t \<Rightarrow> t)" by simp
  have d: "map_of [(''Creator'', ?linked)] ''Creator'' = Some ?linked" by simp
  have e: "truthy ?linked" by simp
  have f: "py_iter ?linked = Inr [JStr ''recB'', JStr ''recC'']" by simp
  from report_one_entry_per_influencer [OF a b camp2_record d e f camp2_run]
  show ?thesis by simp
qed

text \<open>
  C2, as the code has it. The handler answers 400 when the body is falsy or does not
  contain \<^verbatim>\<open>campaignRecordId\<close>, and 500 with an error message when fetching the campaign
  record raises. When the record has no linked influencers it answers 200 with a message
  and no report. When the record links influencers and the loop over them runs to its end,
  it answers 200 with the message, the campaign identifier and the list of entries as
  \<^verbatim>\<open>results\<close>, whatever the statuses of the entries are.
\<close>

theorem handler_responses:
  "(\<not> truthy data \<or> py_contains data ''campaignRecordId'' = Inr False \<longrightarrow>
      update_engagement_for_campaign L E data w =
        Some (Inr (JObj [(''error'', JStr ''Missing 'campaignRecordId' in request body'')],
                   400), w))
   \<and> (map_of kvs ''campaignRecordId'' = Some campaign_record_id
      \<and> campaign_table = (case map_of kvs ''campaignTableName'' of
                             None \<Rightarrow> JStr ''Campaigns'' | Some t \<Rightarrow> t)
      \<and> get_airtable_record E campaign_table campaign_record_id w = (Inl e, w1) \<longrightarrow>
      update_engagement_for_campaign L E (JObj kvs) w =
        Some (Inr (JObj [(''error'',
                JStr (''Failed to fetch campaign record: '' @ lib_str L e))], 500), w1))
   \<and> (map_of kvs ''campaignRecordId'' = Some campaign_record_id
      \<and> campaign_table = (case map_of kvs ''campaignTableName'' of
                             None \<Rightarrow> JStr ''Campaigns'' | Some t \<Rightarrow> t)
      \<and> get_airtable_record E campaign_table campaign_record_id w = (Inr (JObj flds), w1)
      \<and> (case map_of flds ''Creator'' of None \<Rightarrow> True | Some l \<Rightarrow> \<not> truthy l) \<longrightarrow>
      update_engagement_for_campaign L E (JObj kvs) w =
        Some (Inr (JObj [(''message'',
                JStr ''No linked influencers found for this campaign.'')], 200), w1))
   \<and> (map_of kvs ''campaignRecordId'' = Some campaign_record_id
      \<and> campaign_table = (case map_of kvs ''campaignTableName'' of
                             None \<Rightarrow> JStr ''Campaigns'' | Some t \<Rightarrow> t)
      \<and> get_airtable_record E campaign_table campaign_record_id w = (Inr (JObj flds), w1)
      \<and> map_of flds ''Creator'' = Some linked \<and> truthy linked \<and> py_iter linked = Inr ids
      \<and> process_influencers L E (utcnow E w1 - 7776000000000) ids [] w1 =
          Some (Inr update_results, w2) \<longrightarrow>
      update_engagement_for_campaign L E (JObj kvs) w =
        Some (Inr (JObj [(''message'', JStr ''Engagement update complete.''),
                         (''campaignRecordId'', campaign_record_id),
                         (''results'', JArr update_results)], 200), w2))"
proof (intro conjI impI)
  assume "\<not> truthy data \<or> py_contains data ''campaignRecordId'' = Inr False"
  from handler_missing_id [OF this, of L E w]
  show "update_engagement_for_campaign L E data w =
          Some (Inr (JObj [(''error'', JStr ''Missing 'campaignRecordId' in request body'')],
                     400), w)"
    by (simp add: missing_id_response_def)
next
  assume "map_of kvs ''campaignRecordId'' = Some campaign_record_id
      \<and> campaign_table = (case map_of kvs ''campaignTableName'' of
                             None \<Rightarrow> JStr ''Campaigns'' | Some t \<Rightarrow> t)
      \<and> get_airtable_record E campaign_table campaign_record_id w = (Inl e, w1)"
  then have a: "map_of kvs ''campaignRecordId'' = Some campaign_record_id"
    and b: "campaign_table = (case map_of kvs ''campaignTableName'' of
                                None \<Rightarrow> JStr ''Campaigns'' | Some t \<Rightarrow> t)"
    and c: "get_airtable_record E campaign_table campaign_record_id w = (Inl e, w1)"
    by blast+
  from handler_fetch_failed [OF a b c, of L]
  show "update_engagement_for_campaign L E (JObj kvs) w =
        Some (Inr (JObj [(''error'',
                JStr (''Failed to fetch campaign record: '' @ lib_str L e))], 500), w1)" .
next
  assume "map_of kvs ''campaignRecordId'' = Some campaign_record_id
      \<and> campaign_table = (case map_of kvs ''campaignTableName'' of
                             None \<Rightarrow> JStr ''Campaigns'' | Some t \<Rightarrow> t)
      \<and> get_airtable_record E campaign_table campaign_record_id w = (Inr (JObj flds), w1)
      \<and> (case map_of flds ''Creator'' of None \<Rightarrow> True | Some l \<Rightarrow> \<not> truthy l)"
  then have a: "map_of kvs ''campaignRecordId'' = Some campaign_record_id"
    and b: "campaign_table = (case map_of kvs ''campaignTableName'' of
                                None \<Rightarrow> JStr ''Campaigns'' | Some t \<Rightarrow> t)"
    and c: "get_airtable_record E campaign_table campaign_record_id w = (Inr (JObj flds), w1)"
    and d: "case map_of flds ''Creator'' of None \<Rightarrow> True | Some l \<Rightarrow> \<not> truthy l"
    by blast+
  from handler_no_influencers [OF a b c d, of L]
  show "update_engagement_for_campaign L E (JObj kvs) w =
        Some (Inr (JObj [(''message'',
                JStr ''No linked influencers found for this campaign.'')], 200), w1)"
    by (simp only: no_influencers_response_def)
next
  assume h: "map_of kvs ''campaignRecordId'' = Some campaign_record_id
      \<and> campaign_table = (case map_of kvs ''campaignTableName'' of
                             None \<Rightarrow> JStr ''Campaigns'' | Some t \<Rightarrow> t)
      \<and> get_airtable_record E campaign_table campaign_record_id w = (Inr (JObj flds), w1)
      \<and> map_of flds ''Creator'' = Some linked \<and> truthy linked \<and> py_iter linked = Inr ids
      \<and> process_influencers L E (utcnow E w1 - 7776000000000) ids [] w1 =
          Some (Inr update_results, w2)"
  then have a: "map_of kvs ''campaignRecordId'' = Some campaign_record_id"
    and b: "campaign_table = (case map_of kvs ''campaignTableName'' of
                                None \<Rightarrow> JStr ''Campaigns'' | Some t \<Rightarrow> t)"
    and c: "get_airtable_record E campaign_table campaign_record_id w = (Inr (JObj flds), w1)"
    and d: "map_of flds ''Creator'' = Some linked" and t: "truthy linked"
    and i: "py_iter linked = Inr ids"
    and r: "process_influencers L E (utcnow E w1 - 7776000000000) ids [] w1 =
              Some (Inr update_results, w2)"
    by blast+
  from handler_complete [OF a b c d t i, of L] r
  have "update_engagement_for_campaign L E (JObj kvs) w =
      Some (Inr (complete_response campaign_record_id update_results), w2)"
    by simp
  then show "update_engagement_for_campaign L E (JObj kvs) w =
        Some (Inr (JObj [(''message'', JStr ''Engagement update complete.''),
                         (''campaignRecordId'', campaign_record_id),
                         (''results'', JArr update_results)], 200), w2)"
    by (simp add: complete_response_def)
qed

theorem handler_responses_witness:
  "update_engagement_for_campaign sample_lib (service sample_service) JNull 0 =
     Some (Inr (JObj [(''error'', JStr ''Missing 'campaignRecordId' in request body'')],
                400), 0)
   \<and> update_engagement_for_campaign sample_lib (service sample_service)
       (JObj [(''campaignRecordId'', JStr ''gone'')]) 0 =
     Some (Inr (JObj [(''error'', JStr ''Failed to fetch campaign record: HTTP error'')],
                500), 1)
   \<and> update_engagement_for_campaign sample_lib (service sample_service)
       (JObj [(''campaignRecordId'', JStr ''camp0'')]) 0 =
     Some (Inr (JObj [(''message'',
             JStr ''No linked influencers found for this campaign.'')], 200), 1)
   \<and> update_engagement_for_campaign sample_lib (service sample_service)
       (JObj [(''campaignRecordId'', JStr ''camp2'')]) 0 =
     Some (Inr (JObj [(''message'', JStr ''Engagement update complete.''),
                      (''campaignRecordId'', JStr ''camp2''),
                      (''results'', JArr [
                         JObj [(''influencerId'', JStr ''recB''), (''status'', JStr ''skipped''),
                               (''reason'', JStr ''No YouTube Channel ID'')],
                         JObj [(''influencerId'', JStr ''recC''), (''status'', JStr ''failed''),
                               (''reason'',
                                JStr ''Failed to fetch influencer record: HTTP error'')]])],
                200), 3)"
proof -
  let ?E = "service sample_service"
  let ?linked = "JArr [JStr ''recB'', JStr ''recC'']"
  let ?entries = "[JObj [(''influencerId'', JStr ''recB''), (''status'', JStr ''skipped''),
                        (''reason'', JStr ''No YouTube Channel ID'')],
                   JObj [(''influencerId'', JStr ''recC''), (''status'', JStr ''failed''),
                         (''reason'', JStr ''Failed to fetch influencer record: HTTP error'')]]"
  have gone: "get_airtable_record ?E (JStr ''Campaigns'') (JStr ''gone'') 0 =
                (Inl (HTTPError 404), 1)"
    by (simp add: service_defs)
  have camp0: "get_airtable_record ?E (JStr ''Campaigns'') (JStr ''camp0'') 0 =
                 (Inr (JObj [(''Name'', JStr ''Zero'')]), 1)"
    by (simp add: service_defs)
  have loop: "process_influencers sample_lib ?E (utcnow ?E 1 - 7776000000000)
                [JStr ''recB'', JStr ''recC''] [] 1 = Some (Inr ?entries, 3)"
    by (simp add: process_influencer_def entry_def service_defs sample_lib_def)
  have a: "update_engagement_for_campaign sample_lib ?E JNull 0 =
     Some (Inr (JObj [(''error'', JStr ''Missing 'campaignRecordId' in request body'')],
                400), 0)"
    using handler_responses [of JNull sample_lib ?E 0] by simp
  have b: "update_engagement_for_campaign sample_lib ?E
       (JObj [(''campaignRecordId'', JStr ''gone'')]) 0 =
     Some (Inr (JObj [(''error'', JStr ''Failed to fetch campaign record: HTTP error'')],
                500), 1)"
    using gone handler_responses [of JNull sample_lib ?E 0
        "[(''campaignRecordId'', JStr ''gone'')]" "JStr ''gone''" "JStr ''Campaigns''"
        "HTTPError 404" 1]
    by (simp add: sample_lib_def)
  have c: "update_engagement_for_campaign sample_lib ?E
       (JObj [(''campaignRecordId'', JStr ''camp0'')]) 0 =
     Some (Inr (JObj [(''message'',
             JStr ''No linked influencers found for this campaign.'')], 200), 1)"
    using camp0 handler_responses [of JNull sample_lib ?E 0
        "[(''campaignRecordId'', JStr ''camp0'')]" "JStr ''camp0''" "JStr ''Campaigns''"
        _ 1 "[(''Name'', JStr ''Zero'')]"]
    by simp
  have d: "update_engagement_for_campaign sample_lib ?E
       (JObj [(''campaignRecordId'', JStr ''camp2'')]) 0 =
     Some (Inr (JObj [(''message'', JStr ''Engagement update complete.''),
                      (''campaignRecordId'', JStr ''camp2''),
                      (''results'', JArr ?entries)], 200), 3)"
    using camp2_record loop handler_responses [of JNull sample_lib ?E 0
        "[(''campaignRecordId'', JStr ''camp2'')]" "JStr ''camp2''" "JStr ''Campaigns''"
        _ 1 "[(''Creator'', ?linked)]" ?linked "[JStr ''recB'', JStr ''recC'']" ?entries 3]
    by simp
  from a b c d show ?thesis by simp
qed

text \<open>
  The sentence of C2 that every other request gets the report fails for the campaign
  \<open>camp0\<close>, which links no influencer: the handler answers 200 with a body that has no
  \<^verbatim>\<open>results\<close>.
\<close>

theorem no_report_counterexample:
  "update_engagement_for_campaign sample_lib (service sample_service)
     (JObj [(''campaignRecordId'', JStr ''camp0'')]) 0 =
     Some (Inr (JObj [(''message'',
             JStr ''No linked influencers found for this campaign.'')], 200), 1)
   \<and> py_getitem (JObj [(''message'',
             JStr ''No linked influencers found for this campaign.'')]) ''results'' =
       Inl KeyError"
  by (simp add: handler_defs service_defs)

text \<open>An exception of the channel lookup, of the listing or of the detail fetch is the
  outcome of the round, and an exception of a round is the outcome of the loop: the
  influencers after it are not processed.\<close>

lemma lookup_exception_escapes:
  assumes "get_airtable_record E (JStr ''Influencers'') i w = (Inr (JObj kvs), w1)"
    and "map_of kvs ''YouTube Channel ID'' = Some c" and "truthy c"
    and "get_uploads_playlist_id E c w1 = (Inl e, w2)"
  shows "process_influencer L E cutoff_date i w = Some (Inl e, w2)"
  using assms by (simp add: process_influencer_def)

lemma listing_exception_escapes:
  assumes "get_airtable_record E (JStr ''Influencers'') i w = (Inr (JObj kvs), w1)"
    and "map_of kvs ''YouTube Channel ID'' = Some c" and "truthy c"
    and "get_uploads_playlist_id E c w1 = (Inr p, w2)" and "truthy p"
    and "get_recent_video_ids L E p cutoff_date w2 = Some (Inl e, w3)"
  shows "process_influencer L E cutoff_date i w = Some (Inl e, w3)"
  using assms by (simp add: process_influencer_def)

lemma details_exception_escapes:
  assumes "get_airtable_record E (JStr ''Influencers'') i w = (Inr (JObj kvs), w1)"
    and "map_of kvs ''YouTube Channel ID'' = Some c" and "truthy c"
    and "get_uploads_playlist_id E c w1 = (Inr p, w2)" and "truthy p"
    and "get_recent_video_ids L E p cutoff_date w2 = Some (Inr ids, w3)" and "ids \<noteq> []"
    and "get_video_stats_batch E ids w3 = (Inl e, w4)"
  shows "process_influencer L E cutoff_date i w = Some (Inl e, w4)"
  using assms by (simp add: process_influencer_def)

lemma exception_ends_loop:
  assumes "process_influencer L E cutoff_date i w = Some (Inl e, w')"
  shows "process_influencers L E cutoff_date (i # ids) update_results w = Some (Inl e, w')"
  using assms by simp

text \<open>
  C1 does not hold of the code. Only the fetch of the influencer record and the update
  stand in a \<^verbatim>\<open>try\<close>; an exception of the channel lookup does not. For the campaign
  \<open>camp1\<close>, which links \<open>recA\<close> and \<open>recB\<close>, the lookup of the channel of \<open>recA\<close> is answered
  with status 500: the \<^verbatim>\<open>HTTPError\<close> leaves the handler after three requests, there is no
  entry for \<open>recA\<close> and \<open>recB\<close> is never read.
\<close>

theorem channel_failure_escapes:
  "update_engagement_for_campaign sample_lib (traced (service sample_service))
     (JObj [(''campaignRecordId'', JStr ''camp1'')]) (0, []) =
   Some (Inl (HTTPError 500),
         (3, [(AirtableGet (JStr ''Campaigns'') (JStr ''camp1''),
                 record_of [(''Creator'', JArr [JStr ''recA'', JStr ''recB''])]),
              (AirtableGet (JStr ''Influencers'') (JStr ''recA''),
                 record_of [(''YouTube Channel ID'', JStr ''UC1'')]),
              (ChannelsGet (JStr ''UC1''), status_only 500)]))"
  by (simp add: handler_defs service_defs sample_lib_def get_uploads_playlist_id_def)

section \<open>Properties of the batched detail fetch\<close>

text \<open>
  The starting indices are those of \<^verbatim>\<open>range(0, len(video_ids), 50)\<close>: the multiples of 50
  below the length, in increasing order.
\<close>

lemma batch_starts_range:
  "set (batch_starts n) = {i. i < n \<and> i mod 50 = 0}"
  and "sorted (batch_starts n)" and "distinct (batch_starts n)"
proof -
  show "set (batch_starts n) = {i. i < n \<and> i mod 50 = 0}"
  proof (intro set_eqI iffI)
    fix i
    assume "i \<in> set (batch_starts n)"
    then obtain k where k: "k < (n + 49) div 50" and i: "i = 50 * k"
      by (auto simp: batch_starts_def)
    from k have "50 * k < n" by arith
    with i show "i \<in> {i. i < n \<and> i mod 50 = 0}" by simp
  next
    fix i
    assume "i \<in> {i. i < n \<and> i mod 50 = 0}"
    then have lt: "i < n" and m: "i mod 50 = 0" by simp_all
    from m have i: "i = 50 * (i div 50)" by arith
    from lt have "i div 50 < (n + 49) div 50" using m by arith
    with i show "i \<in> set (batch_starts n)"
      unfolding batch_starts_def by (metis (no_types, lifting) atLeastLessThan_iff image_eqI le0 list.set_map set_upt)
  qed
  show "sorted (batch_starts n)"
    unfolding batch_starts_def by (simp add: sorted_map sorted_wrt_iff_nth_less)
  show "distinct (batch_starts n)"
    unfolding batch_starts_def by (simp add: distinct_map inj_on_def)
qed

lemma batches_alt:
  "batches xs = map (\<lambda>k. take 50 (drop (50 * k) xs)) [0 ..< (length xs + 49) div 50]"
  by (simp add: batches_def batch_starts_def comp_def)

lemma concat_chunks:
  "concat (map (\<lambda>k. take 50 (drop (50 * k) xs)) [0 ..< m]) = take (50 * m) xs"
proof (induction m)
  case 0
  show ?case by simp
next
  case (Suc m)
  have "50 * Suc m = 50 * m + 50" by simp
  then have "take (50 * Suc m) xs = take (50 * m) xs @ take 50 (drop (50 * m) xs)"
    by (simp only: take_add)
  with Suc show ?case by simp
qed

lemma batch_index: "k < (n + 49) div 50 \<Longrightarrow> 50 * k < (n::nat)"
  by arith

lemma concat_batches: "concat (batches xs) = xs"
proof -
  have "length xs \<le> 50 * ((length xs + 49) div 50)" by arith
  then show ?thesis by (simp add: batches_alt concat_chunks)
qed

lemma batches_sizes: "list_all (\<lambda>b. 0 < length b \<and> length b \<le> 50) (batches xs)"
  unfolding batches_alt list_all_iff
proof
  fix b
  assume "b \<in> set (map (\<lambda>k. take 50 (drop (50 * k) xs)) [0..<(length xs + 49) div 50])"
  then obtain k where k: "k < (length xs + 49) div 50" and b: "b = take 50 (drop (50 * k) xs)"
    by auto
  from batch_index [OF k] b show "0 < length b \<and> length b \<le> 50" by simp
qed

lemma batches_full: "list_all (\<lambda>b. length b = 50) (butlast (batches xs))"
  unfolding batches_alt list_all_iff
proof
  fix b
  assume "b \<in> set (butlast (map (\<lambda>k. take 50 (drop (50 * k) xs)) [0..<(length xs + 49) div 50]))"
  then have "b \<in> set (map (\<lambda>k. take 50 (drop (50 * k) xs)) (butlast [0..<(length xs + 49) div 50]))"
    by (simp only: map_butlast)
  then obtain k where k: "k < (length xs + 49) div 50 - 1" and b: "b = take 50 (drop (50 * k) xs)"
    by (auto simp: butlast_conv_take)
  from k have "50 * k + 50 \<le> length xs" by arith
  with b show "length b = 50" by simp
qed

lemma batches_101: "length xs = 101 \<Longrightarrow> map length (batches xs) = [50, 50, 1]"
proof -
  assume n: "length xs = 101"
  have "[0..<3] = [0, 1, 2::nat]" by (simp add: upt_rec)
  with n show ?thesis by (simp add: batches_alt comp_def)
qed

lemma length_batches: "length (batches xs) = (length xs + 49) div 50"
  by (simp add: batches_def batch_starts_def)

lemma fetch_json_traced_ok:
  "fetch_json (traced E) req (w, tr) = (Inr j, s1)
   \<Longrightarrow> \<exists>w1 resp. s1 = (w1, tr @ [(req, Inr resp)]) \<and> json_body resp = Inr j"
  by (auto simp: fetch_json_def traced_def split: prod.splits sum.splits)

lemma stats_loop_traced:
  "stats_loop (traced E) bs stats (w, tr) = (Inr result, (w', tr'))
   \<Longrightarrow> \<exists>new. tr' = tr @ new \<and> list_all2 batch_request bs new
             \<and> result = stats @ concat (map (\<lambda>p. response_items (snd p)) new)"
proof (induction bs arbitrary: stats w tr)
  case Nil
  then show ?case by simp
next
  case (Cons b bs)
  from Cons.prems obtain ids j s1 items where
    join: "py_join '','' b = Inr ids" and
    get: "fetch_json (traced E) (VideosGet ids) (w, tr) = (Inr j, s1)" and
    items: "and_then (py_get j ''items'' (JArr [])) py_iter = Inr items" and
    rest: "stats_loop (traced E) bs (stats @ items) s1 = (Inr result, (w', tr'))"
    by (auto split: sum.splits prod.splits)
  from fetch_json_traced_ok [OF get] obtain w1 resp where
    s1: "s1 = (w1, tr @ [(VideosGet ids, Inr resp)])" and body: "json_body resp = Inr j"
    by blast
  from Cons.IH [OF rest [unfolded s1]] obtain new where
    new: "tr' = (tr @ [(VideosGet ids, Inr resp)]) @ new" "list_all2 batch_request bs new"
      "result = (stats @ items) @ concat (map (\<lambda>p. response_items (snd p)) new)"
    by blast
  have one: "batch_request b (VideosGet ids, Inr resp)"
    using join by (simp add: batch_request_def)
  have its: "response_items (Inr resp) = items"
    using body items by (simp add: response_items_def and_then_def)
  show ?case
  proof (intro exI conjI)
    show "tr' = tr @ ((VideosGet ids, Inr resp) # new)" using new(1) by simp
    show "list_all2 batch_request (b # bs) ((VideosGet ids, Inr resp) # new)"
      using one new(2) by simp
    show "result = stats @ concat (map (\<lambda>p. response_items (snd p))
                                      ((VideosGet ids, Inr resp) # new))"
      using new(3) its by simp
  qed
qed

lemma py_join_replicate:
  "0 < n \<Longrightarrow> py_join sep (replicate n (JStr s)) =
               Inr (s @ concat (replicate (n - 1) (sep @ s)))"
proof (induction n)
  case 0
  then show ?case by simp
next
  case (Suc n)
  show ?case
  proof (cases "n = 0")
    case True
    then show ?thesis by simp
  next
    case False
    with Suc.IH have "py_join sep (replicate n (JStr s)) =
                        Inr (s @ concat (replicate (n - 1) (sep @ s)))" by simp
    moreover from False obtain k where "n = Suc k" by (cases n) auto
    ultimately show ?thesis by simp
  qed
qed

lemma batches_replicate_101:
  "batches (replicate 101 x) = [replicate 50 x, replicate 50 x, replicate 1 x]"
proof -
  have "[0..<3] = [0, 1, 2::nat]" by (simp add: upt_rec)
  then show ?thesis by (simp add: batches_alt)
qed

lemma echo_run:
  "get_video_stats_batch (traced (service echo_service)) (replicate 101 (JStr ''v'')) (0, []) =
     (Inr [JStr (''v'' @ concat (replicate 49 '',v'')),
           JStr (''v'' @ concat (replicate 49 '',v'')), JStr ''v''],
      (3, [(VideosGet (''v'' @ concat (replicate 49 '',v'')),
              ok (JObj [(''items'', JArr [JStr (''v'' @ concat (replicate 49 '',v''))])])),
           (VideosGet (''v'' @ concat (replicate 49 '',v'')),
              ok (JObj [(''items'', JArr [JStr (''v'' @ concat (replicate 49 '',v''))])])),
           (VideosGet ''v'', ok (JObj [(''items'', JArr [JStr ''v''])]))]))"
  by (simp add: get_video_stats_batch_def batches_replicate_101 py_join_replicate
      service_defs and_then_def)

text \<open>
  C6. \<^verbatim>\<open>get_video_stats_batch\<close> cuts the identifiers into consecutive batches: their
  concatenation is the list, every batch has between 1 and 50 identifiers and every batch
  but the last has 50. In a run that returns, the requests sent are exactly one per batch,
  in order, each asking for the comma-joined identifiers of its batch, and the result is
  the concatenation of the items of the answers in that order. For 101 identifiers the
  batches have 50, 50 and 1 identifiers and three requests are sent.
\<close>

theorem batches_of_fifty:
  assumes "get_video_stats_batch (traced E) video_ids (w, []) = (Inr stats, (w', tr))"
  shows "concat (batches video_ids) = video_ids
         \<and> list_all (\<lambda>b. 0 < length b \<and> length b \<le> 50) (batches video_ids)
         \<and> list_all (\<lambda>b. length b = 50) (butlast (batches video_ids))
         \<and> list_all2 batch_request (batches video_ids) tr
         \<and> stats = concat (map (\<lambda>p. response_items (snd p)) tr)
         \<and> (length video_ids = 101 \<longrightarrow>
              map length (batches video_ids) = [50, 50, 1] \<and> length tr = 3)"
proof -
  from assms have "stats_loop (traced E) (batches video_ids) [] (w, []) = (Inr stats, (w', tr))"
    by (simp add: get_video_stats_batch_def)
  from stats_loop_traced [OF this]
  have req: "list_all2 batch_request (batches video_ids) tr"
    and res: "stats = concat (map (\<lambda>p. response_items (snd p)) tr)"
    by auto
  have "length video_ids = 101 \<longrightarrow>
          map length (batches video_ids) = [50, 50, 1] \<and> length tr = 3"
  proof
    assume n: "length video_ids = 101"
    from list_all2_lengthD [OF req] have "length tr = length (batches video_ids)" by simp
    also have "\<dots> = 3" using n by (simp add: length_batches)
    finally show "map length (batches video_ids) = [50, 50, 1] \<and> length tr = 3"
      using batches_101 [OF n] by simp
  qed
  with req res concat_batches [of video_ids] batches_sizes [of video_ids]
    batches_full [of video_ids]
  show ?thesis by blast
qed

theorem batches_of_fifty_witness:
  "concat (batches (replicate 101 (JStr ''v''))) = replicate 101 (JStr ''v'')
   \<and> map length (batches (replicate 101 (JStr ''v''))) = [50, 50, 1]
   \<and> list_all2 batch_request (batches (replicate 101 (JStr ''v'')))
        [(VideosGet (''v'' @ concat (replicate 49 '',v'')),
            ok (JObj [(''items'', JArr [JStr (''v'' @ concat (replicate 49 '',v''))])])),
         (VideosGet (''v'' @ concat (replicate 49 '',v'')),
            ok (JObj [(''items'', JArr [JStr (''v'' @ concat (replicate 49 '',v''))])])),
         (VideosGet ''v'', ok (JObj [(''items'', JArr [JStr ''v''])]))]"
proof -
  have n: "length (replicate 101 (JStr ''v'')) = 101" by simp
  from batches_of_fifty [OF echo_run] n show ?thesis by blast
qed

section \<open>Properties of the listing of recent uploads\<close>

lemma scan_item_view:
  "item_view L item = Some v \<Longrightarrow>
     scan_item L c item (acc, f) =
       Inr (if c \<le> fst v then (acc @ [snd v], True) else (acc, f))"
  by (auto simp: item_view_def scan_item_def and_then_def
      split: sum.splits py_datetime.splits)

lemma scan_items_view:
  "those (map (item_view L) its) = Some vs \<Longrightarrow>
     scan_items L c its (acc, f) = Inr (acc @ qualifying c vs, f \<or> qualifying c vs \<noteq> [])"
proof (induction its arbitrary: vs acc f)
  case Nil
  then show ?case by (simp add: qualifying_def)
next
  case (Cons item its)
  from Cons.prems obtain v vs' where
    v: "item_view L item = Some v" and vs': "those (map (item_view L) its) = Some vs'"
    and vs: "vs = v # vs'"
    by (auto split: option.splits)
  show ?case
    using scan_item_view [OF v, of c acc f] Cons.IH [OF vs'] vs
    by (simp add: qualifying_def)
qed

lemma scan_page_view:
  assumes "page_items L data = Some vs"
  shows "scan_page L c data acc =
           Inr (acc @ qualifying c vs,
                if qualifying c vs \<noteq> [] \<and> truthy (page_token data)
                then Some (page_token data) else None)"
proof -
  from assms obtain items its where
    items: "py_get data ''items'' (JArr []) = Inr items" and its: "py_iter items = Inr its"
    and vs: "those (map (item_view L) its) = Some vs"
    by (auto simp: page_items_def and_then_def split: sum.splits)
  from items obtain kvs where data: "data = JObj kvs" by (cases data) auto
  show ?thesis
    using items its scan_items_view [OF vs, of c acc False] data
    by (simp add: scan_page_def and_then_def page_token_def)
qed

lemma recent_loop_stop:
  assumes "fetch_json E (PlaylistItemsGet pl tok) w = (Inr data, w')"
    and "stops L c (data, w')"
  shows "recent_loop L E pl c acc tok w = Some (Inr (acc @ page_ids L c data), w')"
proof -
  from assms(2) obtain vs where vs: "page_items L data = Some vs"
    and st: "qualifying c vs = [] \<or> \<not> truthy (page_token data)"
    by (auto simp: stops_def page_ids_def)
  show ?thesis
    using assms(1) scan_page_view [OF vs, of c acc] st vs
    by (subst recent_loop.simps) (auto simp: page_ids_def)
qed

lemma recent_loop_continue:
  assumes "fetch_json E (PlaylistItemsGet pl tok) w = (Inr data, w')"
    and "continues L c (data, w')"
  shows "recent_loop L E pl c acc tok w =
           recent_loop L E pl c (acc @ page_ids L c data) (Some (page_token data)) w'"
proof -
  from assms(2) obtain vs where vs: "page_items L data = Some vs"
    and st: "qualifying c vs \<noteq> []" "truthy (page_token data)"
    by (auto simp: continues_def page_ids_def)
  show ?thesis
    using assms(1) scan_page_view [OF vs, of c acc] st vs
    by (subst recent_loop.simps) (simp add: page_ids_def)
qed

lemma recent_loop_pages:
  "serves E pl tok w (pages @ [p]) \<Longrightarrow> list_all (continues L c) pages \<Longrightarrow> stops L c p
   \<Longrightarrow> recent_loop L E pl c acc tok w =
         Some (Inr (acc @ concat (map (\<lambda>q. page_ids L c (fst q)) (pages @ [p]))), snd p)"
proof (induction pages arbitrary: tok w acc)
  case Nil
  then show ?case using recent_loop_stop [of E pl tok w "fst p" "snd p" L c acc] by simp
next
  case (Cons q qs)
  from Cons.prems have
    get: "fetch_json E (PlaylistItemsGet pl tok) w = (Inr (fst q), snd q)" and
    rest: "serves E pl (Some (page_token (fst q))) (snd q) (qs @ [p])" and
    cont: "continues L c (fst q, snd q)" and conts: "list_all (continues L c) qs"
    by simp_all
  from recent_loop_continue [OF get cont, of acc]
    Cons.IH [OF rest conts Cons.prems(3), of "acc @ page_ids L c (fst q)"]
  show ?case by simp
qed

text \<open>
  C4. Let the platform answer the successive page requests of a playlist with the pages
  \<open>pages @ [p]\<close>, the first request without a token and every later one with the token of
  the page before. If every page of \<open>pages\<close> has an item published at or after the cutoff
  and a token, and \<open>p\<close> is the first page that has no such item (whether or not it
  carries a token) or no token, then \<^verbatim>\<open>get_recent_video_ids\<close> returns, after the request
  for \<open>p\<close> and no further one, the identifiers of the items published at or after the
  cutoff, in the order of the pages and of the items in them.
\<close>

theorem recent_ids_until_first_stop:
  assumes "serves E playlist_id None w (pages @ [p])"
    and "list_all (continues L cutoff_date) pages"
    and "stops L cutoff_date p"
  shows "get_recent_video_ids L E playlist_id cutoff_date w =
           Some (Inr (concat (map (\<lambda>q. page_ids L cutoff_date (fst q)) (pages @ [p]))),
                 snd p)"
  using recent_loop_pages [OF assms, of "[]"]
  by (simp add: get_recent_video_ids_def)

lemmas page_defs = page1_def page2_def playlist_item_def page_items_def item_view_def
  page_ids_def page_token_def qualifying_def and_then_def sample_lib_def

theorem recent_ids_until_first_stop_witness:
  "get_recent_video_ids sample_lib (traced (service playlist_service)) (JStr ''UU1'') 50
     (0, []) =
   Some (Inr [JStr ''a'', JStr ''b''],
         (2, [(PlaylistItemsGet (JStr ''UU1'') None, ok page1),
              (PlaylistItemsGet (JStr ''UU1'') (Some (JStr ''t2'')), ok page2)]))"
proof -
  let ?E = "traced (service playlist_service)"
  let ?s1 = "(1::nat, [(PlaylistItemsGet (JStr ''UU1'') None, ok page1)])"
  let ?s2 = "(2::nat, [(PlaylistItemsGet (JStr ''UU1'') None, ok page1),
                       (PlaylistItemsGet (JStr ''UU1'') (Some (JStr ''t2'')), ok page2)])"
  have tok: "page_token page1 = JStr ''t2''"
    by (simp add: page1_def page_token_def)
  have a: "serves ?E (JStr ''UU1'') None (0, []) ([(page1, ?s1)] @ [(page2, ?s2)])"
    by (simp add: tok service_defs)
  have b: "list_all (continues sample_lib 50) [(page1, ?s1)]"
    by (simp add: continues_def page_defs)
  have c: "stops sample_lib 50 (page2, ?s2)"
    by (simp add: stops_def page_defs)
  have d: "concat (map (\<lambda>q. page_ids sample_lib 50 (fst q)) ([(page1, ?s1)] @ [(page2, ?s2)])) =
             [JStr ''a'', JStr ''b'']"
    by (simp add: page_defs)
  from recent_ids_until_first_stop [OF a b c] d show ?thesis by simp
qed

section \<open>Properties of the averages\<close>

lemma ilog2_bounds: "0 < n \<Longrightarrow> 2 ^ ilog2 n \<le> n \<and> n < 2 ^ Suc (ilog2 n)"
proof (induction n rule: ilog2.induct)
  case (1 n)
  show ?case
  proof (cases "n < 2")
    case True
    with "1.prems" have "n = 1" by simp
    then show ?thesis by (simp add: ilog2.simps)
  next
    case False
    then have "0 < n div 2" by simp
    with "1.IH" False have IH: "2 ^ ilog2 (n div 2) \<le> n div 2"
      "n div 2 < 2 ^ Suc (ilog2 (n div 2))" by simp_all
    have eq: "ilog2 n = Suc (ilog2 (n div 2))" using False by (subst ilog2.simps) simp
    from IH(1) have "2 * 2 ^ ilog2 (n div 2) \<le> n" by arith
    moreover from IH(2) have "n < 2 * 2 ^ Suc (ilog2 (n div 2))" by arith
    ultimately show ?thesis by (simp add: eq)
  qed
qed

lemma pow2_power_int: "pow2 k = power_int 2 k"
  by (simp add: pow2_def power_int_def inverse_eq_divide power_one_over)

lemma pow2_pos: "0 < pow2 k"
  by (simp add: pow2_power_int)

lemma pow2_nat: "pow2 (int k) = 2 ^ k"
  by (simp add: pow2_def)

lemma pow2_neg_nat: "pow2 (- int k) = 1 / 2 ^ k"
  by (simp add: pow2_def)

lemma pow2_add: "pow2 (a + b) = pow2 a * pow2 b"
  by (simp add: pow2_power_int power_int_add)

lemma pow2_mono: "a \<le> b \<Longrightarrow> pow2 a \<le> pow2 b"
  by (simp add: pow2_power_int power_int_increasing)

lemma of_nat_le_pow2: "(n::nat) \<le> 2 ^ k \<Longrightarrow> (of_nat n :: rat) \<le> 2 ^ k"
  by (metis of_nat_le_iff of_nat_numeral of_nat_power)

lemma pow2_le_of_nat: "2 ^ k \<le> (n::nat) \<Longrightarrow> (2::rat) ^ k \<le> of_nat n"
  by (metis of_nat_le_iff of_nat_numeral of_nat_power)

lemma binary_exponent_lower: "0 < q \<Longrightarrow> pow2 (binary_exponent q) \<le> q"
proof (cases "1 \<le> q")
  case True
  then have pos: "0 < nat \<lfloor>q\<rfloor>" by simp
  from ilog2_bounds [OF pos] have "2 ^ ilog2 (nat \<lfloor>q\<rfloor>) \<le> nat \<lfloor>q\<rfloor>" by simp
  then have "(2::rat) ^ ilog2 (nat \<lfloor>q\<rfloor>) \<le> of_nat (nat \<lfloor>q\<rfloor>)"
    by (rule pow2_le_of_nat)
  also have "\<dots> = of_int \<lfloor>q\<rfloor>" using True by simp
  also have "\<dots> \<le> q" by simp
  finally show ?thesis using True by (simp add: binary_exponent_def pow2_nat)
next
  case False
  assume q: "0 < q"
  let ?c = "nat \<lceil>1 / q\<rceil>"
  from False q have big: "1 < 1 / q" by (simp add: field_simps)
  then have "1 < \<lceil>1 / q\<rceil>" by linarith
  then have c2: "2 \<le> ?c" by linarith
  then have pos: "0 < ?c - 1" by arith
  from ilog2_bounds [OF pos] have "?c - 1 < 2 ^ Suc (ilog2 (?c - 1))" by simp
  then have "?c \<le> 2 ^ Suc (ilog2 (?c - 1))" by simp
  then have "(of_nat ?c :: rat) \<le> 2 ^ Suc (ilog2 (?c - 1))"
    by (rule of_nat_le_pow2)
  moreover have "1 / q \<le> of_nat ?c"
  proof -
    have "1 / q \<le> of_int \<lceil>1 / q\<rceil>" by simp
    also have "of_int \<lceil>1 / q\<rceil> = (of_nat ?c :: rat)" using \<open>1 < \<lceil>1 / q\<rceil>\<close> by simp
    finally show ?thesis .
  qed
  ultimately have "1 / q \<le> 2 ^ Suc (ilog2 (?c - 1))" by simp
  then have "1 / 2 ^ Suc (ilog2 (?c - 1)) \<le> q" using q
    by (simp add: field_simps)
  moreover have "binary_exponent q = - int (Suc (ilog2 (?c - 1)))"
    using False by (simp add: binary_exponent_def)
  ultimately show ?thesis by (simp only: pow2_neg_nat)
qed

lemma binary_exponent_upper: "0 < q \<Longrightarrow> q < pow2 (binary_exponent q + 1)"
proof (cases "1 \<le> q")
  case True
  then have pos: "0 < nat \<lfloor>q\<rfloor>" by simp
  from ilog2_bounds [OF pos] have "Suc (nat \<lfloor>q\<rfloor>) \<le> 2 ^ Suc (ilog2 (nat \<lfloor>q\<rfloor>))" by simp
  then have "(of_nat (Suc (nat \<lfloor>q\<rfloor>)) :: rat) \<le> 2 ^ Suc (ilog2 (nat \<lfloor>q\<rfloor>))"
    by (rule of_nat_le_pow2)
  moreover have "q < of_nat (Suc (nat \<lfloor>q\<rfloor>))"
  proof -
    have "q < of_int (\<lfloor>q\<rfloor> + 1)" by linarith
    also have "of_int (\<lfloor>q\<rfloor> + 1) = (of_nat (Suc (nat \<lfloor>q\<rfloor>)) :: rat)" using True by simp
    finally show ?thesis .
  qed
  ultimately have "q < 2 ^ Suc (ilog2 (nat \<lfloor>q\<rfloor>))" by simp
  moreover have "binary_exponent q + 1 = int (Suc (ilog2 (nat \<lfloor>q\<rfloor>)))"
    using True by (simp add: binary_exponent_def)
  ultimately show ?thesis by (simp only: pow2_nat)
next
  case False
  assume q: "0 < q"
  let ?c = "nat \<lceil>1 / q\<rceil>"
  from False q have big: "1 < 1 / q" by (simp add: field_simps)
  then have c1: "1 < \<lceil>1 / q\<rceil>" by linarith
  then have pos: "0 < ?c - 1" by linarith
  from ilog2_bounds [OF pos] have "2 ^ ilog2 (?c - 1) \<le> ?c - 1" by simp
  then have "(2::rat) ^ ilog2 (?c - 1) \<le> of_nat (?c - 1)" by (rule pow2_le_of_nat)
  moreover have "of_nat (?c - 1) < 1 / q"
  proof -
    from c1 have "int (?c - 1) = \<lceil>1 / q\<rceil> - 1" by linarith
    then have "(of_nat (?c - 1) :: rat) = of_int (\<lceil>1 / q\<rceil> - 1)"
      by (metis of_int_of_nat_eq)
    also have "\<dots> < 1 / q" by linarith
    finally show ?thesis .
  qed
  ultimately have "2 ^ ilog2 (?c - 1) < 1 / q" by (rule le_less_trans)
  then have "q < 1 / 2 ^ ilog2 (?c - 1)" using q by (simp add: field_simps)
  moreover have "binary_exponent q + 1 = - int (ilog2 (?c - 1))"
    using False by (simp add: binary_exponent_def)
  ultimately show ?thesis by (simp only: pow2_neg_nat)
qed

lemma round_half_even_ge: "of_int N \<le> x \<Longrightarrow> N \<le> round_half_even x"
proof -
  assume "of_int N \<le> x"
  then have "N \<le> \<lfloor>x\<rfloor>" by (simp add: le_floor_iff)
  then show ?thesis by (simp add: round_half_even_def Let_def)
qed

lemma round_half_even_less: "x < of_int N - 1 / 2 \<Longrightarrow> round_half_even x < N"
proof -
  assume x: "x < of_int N - 1 / 2"
  have fl: "of_int \<lfloor>x\<rfloor> \<le> x" by simp
  show ?thesis
  proof (cases "x - of_int \<lfloor>x\<rfloor> < 1 / 2")
    case True
    from x fl have "of_int \<lfloor>x\<rfloor> < (of_int N :: rat)" by linarith
    then have "\<lfloor>x\<rfloor> < N" by simp
    with True show ?thesis by (simp add: round_half_even_def Let_def)
  next
    case False
    then have "of_int \<lfloor>x\<rfloor> + 1 / 2 \<le> x" by linarith
    with x have "of_int \<lfloor>x\<rfloor> + 1 < (of_int N :: rat)" by linarith
    then have "of_int (\<lfloor>x\<rfloor> + 1) < (of_int N :: rat)" by simp
    then have "\<lfloor>x\<rfloor> + 1 < N" by (simp only: of_int_less_iff)
    then show ?thesis by (simp add: round_half_even_def Let_def)
  qed
qed

lemma of_int_less_pow: "(s::int) < 2 ^ k \<Longrightarrow> (of_int s :: rat) < 2 ^ k"
  by (metis of_int_less_iff of_int_numeral of_int_power)

lemma exponent_le_52:
  assumes "0 < q" "q < 2 ^ 53"
  shows "binary_exponent q \<le> 52"
proof (rule ccontr)
  assume "\<not> binary_exponent q \<le> 52"
  then have "53 \<le> binary_exponent q" by simp
  then have "pow2 53 \<le> pow2 (binary_exponent q)" by (rule pow2_mono)
  also have "\<dots> \<le> q" using binary_exponent_lower [OF assms(1)] .
  finally have "pow2 53 < 2 ^ 53" using assms(2) by simp
  then show False by (simp add: pow2_def)
qed

lemma ulp_reciprocal:
  assumes "e \<le> 52"
  shows "pow2 (e - 52) = 1 / 2 ^ nat (52 - e)"
proof -
  from assms have "e - 52 = - int (nat (52 - e))" by simp
  then show ?thesis by (simp only: pow2_neg_nat)
qed

lemma quotient_bracket:
  fixes s n :: int and q :: rat
  assumes qn: "q * of_int n = of_int s" and n: "0 < n"
  shows "of_int (s div n) \<le> q" and "q + 1 / of_int n \<le> of_int (s div n) + 1"
proof -
  have npos: "(0::rat) < of_int n" using n by simp
  have "(s div n) * n \<le> s"
    using div_mult_mod_eq [of s n] pos_mod_sign [OF n, of s] by linarith
  then have "(of_int ((s div n) * n) :: rat) \<le> of_int s" by (simp only: of_int_le_iff)
  then have "(of_int (s div n) :: rat) * of_int n \<le> q * of_int n" by (simp add: qn)
  then show "of_int (s div n) \<le> q" using npos by (simp only: mult_le_cancel_right_pos)
  have "s + 1 \<le> (s div n) * n + n"
    using div_mult_mod_eq [of s n] pos_mod_bound [OF n, of s] by linarith
  then have "(of_int (s + 1) :: rat) \<le> of_int ((s div n) * n + n)"
    by (simp only: of_int_le_iff)
  then have "q * of_int n + 1 \<le> (of_int (s div n) + 1) * of_int n"
    by (simp add: qn algebra_simps)
  moreover have "(q + 1 / of_int n) * of_int n = q * of_int n + 1"
    using npos by (simp add: distrib_right)
  ultimately have "(q + 1 / of_int n) * of_int n \<le> (of_int (s div n) + 1) * of_int n"
    by simp
  then show "q + 1 / of_int n \<le> of_int (s div n) + 1"
    using npos by (simp only: mult_le_cancel_right_pos)
qed

lemma ulp_normal:
  fixes q N S :: rat
  assumes q: "0 < q" and qN: "q * N = S" and N: "0 < N" and S: "S < 2 ^ 53"
  shows "pow2 (binary_exponent q - 52) / 2 < 1 / N"
proof -
  let ?u = "pow2 (binary_exponent q - 52)"
  define c :: rat where "c = pow2 (- 52)"
  have c: "0 < c" "c * 2 ^ 53 = 2" by (simp_all add: c_def pow2_def)
  have "?u = pow2 (binary_exponent q + (- 52))" by simp
  also have "\<dots> = pow2 (binary_exponent q) * c" unfolding c_def by (rule pow2_add)
  finally have u: "?u = pow2 (binary_exponent q) * c" .
  have "pow2 (binary_exponent q) * c \<le> q * c"
    using binary_exponent_lower [OF q] c(1) by (simp only: mult_le_cancel_right_pos)
  then have "?u \<le> q * c" by (simp only: u)
  then have "?u * N \<le> (q * c) * N" using N by (simp only: mult_le_cancel_right_pos)
  also have "(q * c) * N = c * S" using qN by (simp add: ac_simps)
  also have "c * S < c * 2 ^ 53" using S c(1) by (simp only: mult_less_cancel_left_pos)
  finally have "?u * N < 2" by (simp only: c(2))
  then have "(?u / 2) * N < (1 / N) * N" using N by simp
  then show ?thesis using N by (simp only: mult_less_cancel_right_pos)
qed

lemma ulp_subnormal:
  assumes q: "0 < q" and e: "binary_exponent q < - 1022"
  shows "q < 1 / 2"
proof -
  from e have "binary_exponent q + 1 \<le> - 1" by simp
  then have "pow2 (binary_exponent q + 1) \<le> pow2 (- 1)" by (rule pow2_mono)
  with binary_exponent_upper [OF q] have "q < pow2 (- 1)" by (rule less_le_trans)
  then show ?thesis by (simp add: pow2_def)
qed

lemma rounding_window:
  fixes q u :: rat and K :: int
  assumes lo: "of_int K \<le> q" and hi: "q + u / 2 < of_int K + 1" and u: "u = 1 / 2 ^ k"
  shows "of_int K \<le> of_int (round_half_even (q / u)) * u"
    and "of_int (round_half_even (q / u)) * u < of_int K + 1"
proof -
  let ?M = "(2::rat) ^ k"
  let ?m = "round_half_even (q / u)"
  have Mpos: "0 < ?M" by simp
  have qu: "q / u = q * ?M" by (simp add: u)
  have uM: "u * ?M = 1" by (simp add: u)
  have mu: "of_int ?m * u * ?M = of_int ?m" by (simp add: u)
  have "of_int K * ?M \<le> q * ?M" using lo Mpos by (simp only: mult_le_cancel_right_pos)
  then have "of_int (K * 2 ^ k) \<le> q / u" by (simp add: qu)
  then have A: "K * 2 ^ k \<le> ?m" by (rule round_half_even_ge)
  have "(q + u / 2) * ?M < (of_int K + 1) * ?M"
    using hi Mpos by (simp only: mult_less_cancel_right_pos)
  moreover have "(q + u / 2) * ?M = q * ?M + 1 / 2"
    using uM by (simp add: distrib_right)
  ultimately have "q * ?M < (of_int K + 1) * ?M - 1 / 2" by linarith
  then have "q / u < of_int ((K + 1) * 2 ^ k) - 1 / 2" by (simp add: qu)
  then have B: "?m < (K + 1) * 2 ^ k" by (rule round_half_even_less)
  from A have "(of_int (K * 2 ^ k) :: rat) \<le> of_int ?m" by (simp only: of_int_le_iff)
  then have "of_int K * ?M \<le> of_int ?m * u * ?M" by (simp add: mu)
  then show "of_int K \<le> of_int ?m * u" using Mpos by (simp only: mult_le_cancel_right_pos)
  from B have "(of_int ?m :: rat) < of_int ((K + 1) * 2 ^ k)" by (simp only: of_int_less_iff)
  then have "of_int ?m * u * ?M < (of_int K + 1) * ?M" by (simp add: mu)
  then show "of_int ?m * u < of_int K + 1" using Mpos by (simp only: mult_less_cancel_right_pos)
qed

lemma round_to_double_quotient:
  fixes s n :: int
  assumes s: "0 < s" "s < 2 ^ 53" and n: "0 < n"
  shows "of_int (s div n) \<le> round_to_double (of_int s / of_int n)"
    and "round_to_double (of_int s / of_int n) < of_int (s div n) + 1"
proof -
  define q :: rat where "q = of_int s / of_int n"
  define e where "e = max (binary_exponent q) (- 1022)"
  define u where "u = pow2 (e - 52)"
  have npos: "(0::rat) < of_int n" using n by simp
  have qn: "q * of_int n = of_int s" using npos by (simp add: q_def)
  have qpos: "0 < q" using s(1) npos by (simp add: q_def)
  note br = quotient_bracket [OF qn n]
  have "q * 1 \<le> q * of_int n"
    using qpos n by (intro mult_left_mono) simp_all
  then have "q \<le> of_int s" by (simp add: qn)
  then have q53: "q < 2 ^ 53" using of_int_less_pow [OF s(2)] by (rule le_less_trans)
  have e52: "e \<le> 52" using exponent_le_52 [OF qpos q53] by (simp add: e_def)
  have ur: "u = 1 / 2 ^ nat (52 - e)" unfolding u_def by (rule ulp_reciprocal [OF e52])
  have hi: "q + u / 2 < of_int (s div n) + 1"
  proof (cases "- 1022 \<le> binary_exponent q")
    case True
    then have "e = binary_exponent q" by (simp add: e_def)
    with ulp_normal [OF qpos qn npos of_int_less_pow [OF s(2)]]
    have "u / 2 < 1 / of_int n" by (simp add: u_def)
    with br(2) show ?thesis by linarith
  next
    case False
    then have "binary_exponent q < - 1022" by simp
    from ulp_subnormal [OF qpos this] have qh: "q < 1 / 2" .
    have "u \<le> 1"
    proof -
      have "pow2 (e - 52) \<le> pow2 0" by (rule pow2_mono) (use e52 in simp)
      then show ?thesis by (simp add: u_def pow2_def)
    qed
    moreover have "(0::rat) \<le> of_int (s div n)"
      using s(1) n by (simp add: pos_imp_zdiv_nonneg_iff)
    ultimately show ?thesis using qh by linarith
  qed
  note w = rounding_window [OF br(1) hi ur]
  have r: "round_to_double q = of_int (round_half_even (q / u)) * u"
    using qpos by (simp add: round_to_double_def Let_def u_def e_def)
  from w(1) have "of_int (s div n) \<le> round_to_double q" by (simp only: r)
  then show "of_int (s div n) \<le> round_to_double (of_int s / of_int n)"
    by (simp only: q_def)
  from w(2) have "round_to_double q < of_int (s div n) + 1" by (simp only: r)
  then show "round_to_double (of_int s / of_int n) < of_int (s div n) + 1"
    by (simp only: q_def)
qed

lemma div_le_self_int:
  fixes s n :: int
  assumes "0 \<le> s" "0 < n"
  shows "s div n \<le> s"
proof -
  have "s div n \<le> s div 1" using assms by (intro zdiv_mono2) simp_all
  then show ?thesis by simp
qed

lemma round_to_double_minus: "round_to_double (- q) = - round_to_double q"
  by (simp add: round_to_double_def Let_def)

lemma int_of_float_window:
  assumes "0 \<le> K" "of_int K \<le> r" "r < of_int K + 1"
  shows "int_of_float r = K" and "int_of_float (- r) = - K"
proof -
  from assms(1,2) have r0: "0 \<le> r" by (metis of_int_0_le_iff order_trans)
  have fl: "\<lfloor>r\<rfloor> = K" using assms(2,3) by (rule floor_unique)
  show "int_of_float r = K" using r0 fl by (simp add: int_of_float_def)
  show "int_of_float (- r) = - K"
  proof (cases "r = 0")
    case True
    with fl show ?thesis by (simp add: int_of_float_def)
  next
    case False
    with r0 have "\<not> 0 \<le> - r" by simp
    then show ?thesis using fl by (simp add: int_of_float_def ceiling_minus)
  qed
qed

lemma py_true_div_small:
  fixes s n :: int
  assumes s: "0 < s" "s < 2 ^ 53" and n: "0 < n"
  shows "py_true_div s n = Inr (round_to_double (of_int s / of_int n))"
    and "py_true_div (- s) n = Inr (- round_to_double (of_int s / of_int n))"
proof -
  let ?r = "round_to_double (of_int s / of_int n)"
  note b = round_to_double_quotient [OF s n]
  have K0: "0 \<le> s div n" using s(1) n by (simp add: pos_imp_zdiv_nonneg_iff)
  then have "(0::rat) \<le> of_int (s div n)" by simp
  then have r0: "0 \<le> ?r" using b(1) by (rule order_trans)
  have "s div n + 1 \<le> 2 ^ 53" using div_le_self_int [of s n] s n by simp
  then have "(of_int (s div n + 1) :: rat) \<le> 2 ^ 53"
    by (metis of_int_le_iff of_int_numeral of_int_power)
  then have "(of_int (s div n) :: rat) + 1 \<le> 2 ^ 53" by simp
  with b(2) have "?r < 2 ^ 53" by (rule less_le_trans)
  moreover have "(2::rat) ^ 53 \<le> 2 ^ 1024" by (rule power_increasing) simp_all
  ultimately have "?r < 2 ^ 1024" by (rule less_le_trans)
  with r0 have small: "\<not> 2 ^ 1024 \<le> \<bar>?r\<bar>" by (simp only: abs_of_nonneg not_le)
  from n have n0: "n \<noteq> 0" by simp
  show "py_true_div s n = Inr ?r"
    unfolding py_true_div_def Let_def using small n0 by (simp only: if_False)
  have m: "(of_int (- s) / of_int n :: rat) = - (of_int s / of_int n)" by simp
  show "py_true_div (- s) n = Inr (- ?r)"
    unfolding py_true_div_def Let_def m round_to_double_minus abs_minus_cancel
    using small n0 by (simp only: if_False)
qed

lemma average_truncated_quotient:
  assumes ne: "xs \<noteq> []" and bound: "\<bar>sum_list xs\<bar> < 2 ^ 53"
  shows "average xs = Inr (sgn (sum_list xs) * (\<bar>sum_list xs\<bar> div int (length xs)))"
proof -
  let ?n = "int (length xs)"
  from ne have n: "0 < ?n" by simp
  consider (zero) "sum_list xs = 0" | (pos) "0 < sum_list xs" | (neg) "sum_list xs < 0"
    by linarith
  then show ?thesis
  proof cases
    case zero
    have "round_to_double 0 = 0" by (simp add: round_to_double_def)
    then have "py_true_div 0 ?n = Inr 0" using n by (simp add: py_true_div_def)
    then show ?thesis using zero by (simp add: average_def int_of_float_def)
  next
    case pos
    with bound have s: "0 < sum_list xs" "sum_list xs < 2 ^ 53" by simp_all
    have K0: "0 \<le> sum_list xs div ?n" using s(1) n by (simp add: pos_imp_zdiv_nonneg_iff)
    from py_true_div_small(1) [OF s n]
      int_of_float_window(1) [OF K0 round_to_double_quotient [OF s n]]
    show ?thesis using pos by (simp add: average_def)
  next
    case neg
    with bound have s: "0 < - sum_list xs" "- sum_list xs < 2 ^ 53" by simp_all
    have K0: "0 \<le> (- sum_list xs) div ?n" using s(1) n by (simp add: pos_imp_zdiv_nonneg_iff)
    from py_true_div_small(2) [OF s n]
      int_of_float_window(2) [OF K0 round_to_double_quotient [OF s n]]
    show ?thesis using neg by (simp add: average_def)
  qed
qed

lemma average_negative_sample: "average [- 3, 0] = Inr (- 1)"
  using average_truncated_quotient [of "[- 3, 0]"] by simp

lemma average_large_sample: "average [9007199254740993] = Inr 9007199254740992"
proof -
  have e: "binary_exponent 9007199254740993 = 53"
    by (simp add: binary_exponent_def ilog2.simps)
  have fl: "\<lfloor>(9007199254740993::rat) / 2\<rfloor> = 4503599627370496"
    by (rule floor_unique) simp_all
  have r: "round_half_even (9007199254740993 / 2) = 4503599627370496"
    by (simp add: round_half_even_def Let_def fl)
  have d: "round_to_double 9007199254740993 = 9007199254740992"
    by (simp add: round_to_double_def Let_def e pow2_def r)
  have fl2: "\<lfloor>(9007199254740992::rat)\<rfloor> = 9007199254740992"
    by (rule floor_unique) simp_all
  show ?thesis by (simp add: average_def py_true_div_def d int_of_float_def fl2)
qed

text \<open>The rounding gives the binary64 numbers that Python prints for \<^verbatim>\<open>1 / 3\<close>
  (\<^verbatim>\<open>0x1.5555555555555p-2\<close>) and \<^verbatim>\<open>1 / 10\<close> (\<^verbatim>\<open>0x1.999999999999ap-4\<close>).\<close>

lemma round_to_double_third: "round_to_double (1 / 3) = 6004799503160661 / 2 ^ 54"
proof -
  have e: "binary_exponent (1 / 3) = - 2"
    by (simp add: binary_exponent_def ilog2.simps)
  have fl: "\<lfloor>(18014398509481984::rat) / 3\<rfloor> = 6004799503160661"
    by (rule floor_unique) simp_all
  have r: "round_half_even (18014398509481984 / 3) = 6004799503160661"
    by (simp add: round_half_even_def Let_def fl)
  show ?thesis by (simp add: round_to_double_def Let_def e pow2_def r)
qed

lemma round_to_double_tenth: "round_to_double (1 / 10) = 7205759403792794 / 2 ^ 56"
proof -
  have e: "binary_exponent (1 / 10) = - 4"
    by (simp add: binary_exponent_def ilog2.simps)
  have fl: "\<lfloor>(36028797018963968::rat) / 5\<rfloor> = 7205759403792793"
    by (rule floor_unique) simp_all
  have r: "round_half_even (36028797018963968 / 5) = 7205759403792794"
    by (simp add: round_half_even_def Let_def fl)
  show ?thesis by (simp add: round_to_double_def Let_def e pow2_def r)
qed

text \<open>
  C3, as the code has it. For a non-empty list of counts whose sum is below \<open>2\<^sup>5\<^sup>3\<close> in
  absolute value, the average is the exact quotient of the sum by the number of counts
  with its fractional part dropped: no rounding of the division shows, and no exception
  is raised. For a sum that is not negative this is the floor of the quotient, Python's
  \<^verbatim>\<open>sum // count\<close>; the views 100, 200, 201 have the average 167.
\<close>

theorem average_drops_fraction:
  assumes "xs \<noteq> []" and "\<bar>sum_list xs\<bar> < 2 ^ 53"
  shows "average xs = Inr (sgn (sum_list xs) * (\<bar>sum_list xs\<bar> div int (length xs)))
         \<and> (0 \<le> sum_list xs \<longrightarrow> average xs = Inr (sum_list xs div int (length xs)))"
proof -
  have "0 \<le> sum_list xs \<Longrightarrow>
          sgn (sum_list xs) * (\<bar>sum_list xs\<bar> div int (length xs)) =
          sum_list xs div int (length xs)"
    by (cases "sum_list xs = 0") simp_all
  with average_truncated_quotient [OF assms] show ?thesis by simp
qed

theorem average_drops_fraction_witness: "average [100, 200, 201] = Inr 167"
proof -
  have a: "[100, 200, 201 :: int] \<noteq> []" by simp
  have b: "\<bar>sum_list [100, 200, 201 :: int]\<bar> < 2 ^ 53" by simp
  from average_drops_fraction [OF a b] show ?thesis by simp
qed

text \<open>
  The floor of the quotient, which C3 states for every non-empty list, is not what the code
  computes for a negative sum (the counts -3 and 0 have the average -1, the floor of -3/2
  is -2) nor beyond the precision of the division (the single count \<open>2\<^sup>5\<^sup>3 + 1\<close> has the
  average \<open>2\<^sup>5\<^sup>3\<close>).
\<close>

theorem average_floor_counterexample:
  "average [- 3, 0] = Inr (- 1)
   \<and> sum_list [- 3, 0 :: int] div int (length [- 3, 0 :: int]) = - 2
   \<and> average [9007199254740993] = Inr 9007199254740992
   \<and> sum_list [9007199254740993 :: int] div int (length [9007199254740993 :: int]) =
       9007199254740993"
  using average_negative_sample average_large_sample by simp

section \<open>A complete run\<close>

text \<open>
  The handler on the campaign of \<open>full_service\<close>: six requests in the order of the source,
  the short video left out, the averages 150, 15 and 2 written back and one
  \<^verbatim>\<open>success\<close> entry in the report.
\<close>

lemma sample_averages:
  "average [100, 200] = Inr 150" "average [10, 20] = Inr 15" "average [1, 3] = Inr 2"
  using average_truncated_quotient [of "[100, 200]"] average_truncated_quotient [of "[10, 20]"]
    average_truncated_quotient [of "[1, 3]"]
  by simp_all

lemma complete_run:
  "update_engagement_for_campaign sample_lib (traced (service full_service))
     (JObj [(''campaignRecordId'', JStr ''camp9'')]) (0, []) =
   Some (Inr (JObj [(''message'', JStr ''Engagement update complete.''),
                    (''campaignRecordId'', JStr ''camp9''),
                    (''results'', JArr [JObj [(''influencerId'', JStr ''recD''),
                                              (''status'', JStr ''success'')]])], 200),
         (6, [(AirtableGet (JStr ''Campaigns'') (JStr ''camp9''),
                 full_service (AirtableGet (JStr ''Campaigns'') (JStr ''camp9''))),
              (AirtableGet (JStr ''Influencers'') (JStr ''recD''),
                 full_service (AirtableGet (JStr ''Influencers'') (JStr ''recD''))),
              (ChannelsGet (JStr ''UC9''), full_service (ChannelsGet (JStr ''UC9''))),
              (PlaylistItemsGet (JStr ''UU9'') None,
                 full_service (PlaylistItemsGet (JStr ''UU9'') None)),
              (VideosGet ''v1,v2,v3'', full_service (VideosGet ''v1,v2,v3'')),
              (AirtablePatch (JStr ''Influencers'') (JStr ''recD'')
                 (JObj [(''fields'', JObj [(''LGVPV90'', JInt 150), (''LGLPV90'', JInt 15),
                                           (''LGCPV90'', JInt 2)])]),
               ok (JObj [(''id'', JStr ''recD'')]))]))"
  by (simp add: handler_defs service_defs sample_lib_def get_uploads_playlist_id_def
      get_recent_video_ids_def recent_loop.simps scan_page_def scan_item_def and_then_def
      playlist_item_def get_video_stats_batch_def batches_alt collect_defs duration_defs
      full_video_def averages_def sample_averages update_airtable_record_def)

text \<open>
  Lists of different lengths reach the averages as they are: after the item
  \<open>bad_likes_video\<close> alone there is a view count and no like count, and the second
  division, by the length 0, raises.
\<close>

lemma uneven_lists_average:
  "averages \<lparr>longform_views = [10], longform_likes = [], longform_comments = []\<rparr> =
     Inl ZeroDivisionError"
proof -
  have "average [10] = Inr 10" using average_truncated_quotient [of "[10]"] by simp
  moreover have "average [] = Inl ZeroDivisionError" by (simp add: average_def py_true_div_def)
  ultimately show ?thesis by (simp add: averages_def and_then_def)
qed

end
